theory Spec2Isabelle
  imports Complex_Main
begin

section \<open>Data model of the production scheduler\<close>

text \<open>
  The development embeds the scheduling engine of \<^verbatim>\<open>src/scheduler.py\<close> (class
  \<^verbatim>\<open>ProductionScheduler\<close>).

  A \<^verbatim>\<open>datetime\<close> is modelled by the number of whole minutes since Monday
  2025-08-18 00:00 (every instant the scheduler computes has zero seconds: the start
  date is 06:00, durations are integer minutes and every \<^verbatim>\<open>replace\<close> clears the
  seconds).  A calendar date is the number of days since that Monday, so that
  \<^verbatim>\<open>weekday()\<close> is the day number modulo 7 (Monday is 0).

  A Python \<^verbatim>\<open>dict\<close> is an association list in insertion order with distinct keys;
  a \<^verbatim>\<open>set\<close> that is only tested for membership and counted is a duplicate-free list.
\<close>

type_synonym task_id = int
type_synonym datetime = int
type_synonym date = int

record task_info =
  duration :: int
  team :: "string option"
  mechanics_required :: int
  is_quality :: bool
  task_type :: string

text \<open>An entry of \<^verbatim>\<open>self.task_schedule\<close> (lines 979-989).\<close>

record placement =
  start_time :: datetime
  end_time :: datetime
  s_team :: "string option"
  s_product_line :: string
  s_duration :: int
  s_mechanics_required :: int
  s_is_quality :: bool
  s_task_type :: string
  s_shift :: string

text \<open>A row of the task relationships table: \<^verbatim>\<open>'Relationship Type'\<close> or
  \<^verbatim>\<open>'Relationship'\<close> may be absent.\<close>

record raw_constraint =
  rc_First :: task_id
  rc_Second :: task_id
  rc_Relationship_Type :: "string option"
  rc_Relationship :: "string option"

text \<open>A late-part row and a rework row as the loader stores them (lines 224-230 and
  306-312): the key \<^verbatim>\<open>'Product_Line'\<close> is always present and may hold \<^verbatim>\<open>None\<close>.\<close>

record lp_constraint =
  lp_First :: task_id
  lp_Second :: task_id
  lp_On_Dock_Date :: datetime
  lp_Product_Line :: "string option"

record rw_constraint =
  rw_First :: task_id
  rw_Second :: task_id
  rw_Relationship :: string
  rw_Product_Line :: "string option"

text \<open>An edge of the effective dependency graph (an element of \<^verbatim>\<open>dynamic_constraints\<close>).\<close>

record constraint =
  First :: task_id
  Second :: task_id
  Relationship :: string
  Type :: "string option"
  Product_Line :: "string option option"

text \<open>The fields of \<^verbatim>\<open>self\<close> that the engine reads and writes (lines 66-96).\<close>

record scheduler =
  late_part_delay_days :: rat
  tasks :: "(task_id \<times> task_info) list"
  quality_inspections :: "(task_id \<times> task_id) list"
  quality_requirements :: "(task_id \<times> task_id) list"
  precedence_constraints :: "raw_constraint list"
  late_part_constraints :: "lp_constraint list"
  rework_constraints :: "rw_constraint list"
  late_part_tasks :: "task_id list"
  rework_tasks :: "task_id list"
  on_dock_dates :: "(task_id \<times> datetime) list"
  team_shifts :: "(string \<times> string list) list"
  team_capacity :: "(string \<times> int) list"
  quality_team_shifts :: "(string \<times> string list) list"
  quality_team_capacity :: "(string \<times> int) list"
  holidays :: "(string \<times> date list) list"
  product_tasks :: "(string \<times> task_id list) list"
  task_schedule :: "(task_id \<times> placement) list"
  original_team_capacity :: "(string \<times> int) list"
  original_quality_capacity :: "(string \<times> int) list"

subsection \<open>Dates and times\<close>

definition date_of :: "datetime \<Rightarrow> date" where
  "date_of t = t div 1440"

definition weekday :: "datetime \<Rightarrow> int" where
  "weekday t = date_of t mod 7"

text \<open>\<^verbatim>\<open>current_time.hour * 60 + current_time.minute\<close>\<close>

definition minutes_of_day :: "datetime \<Rightarrow> int" where
  "minutes_of_day t = t mod 1440"

text \<open>\<^verbatim>\<open>t.replace(hour=h, minute=m, second=0)\<close>\<close>

definition replace_time :: "datetime \<Rightarrow> int \<Rightarrow> int \<Rightarrow> datetime" where
  "replace_time t h m = date_of t * 1440 + h * 60 + m"

text \<open>\<^verbatim>\<open>datetime.combine(d, datetime.min.time())\<close>\<close>

definition midnight :: "date \<Rightarrow> datetime" where
  "midnight d = d * 1440"

text \<open>\<^verbatim>\<open>datetime(2025, 8, 22, 6, 0)\<close>: Friday of the week of the epoch, 06:00.\<close>

definition start_date :: datetime where
  "start_date = 4 * 1440 + 360"

text \<open>\<^verbatim>\<open>d.get(k, default)\<close>\<close>

definition dict_get :: "('k \<times> 'v) list \<Rightarrow> 'k \<Rightarrow> 'v \<Rightarrow> 'v" where
  "dict_get d k dflt = (case map_of d k of None \<Rightarrow> dflt | Some v \<Rightarrow> v)"

subsection \<open>Calendar (lines 1157-1165)\<close>

definition is_working_day :: "scheduler \<Rightarrow> datetime \<Rightarrow> string \<Rightarrow> bool" where
  "is_working_day s d product_line =
     (if weekday d \<ge> 5 then False
      else if date_of d \<in> set (dict_get (holidays s) product_line []) then False
      else True)"

subsection \<open>Makespan (lines 1606-1639)\<close>

text \<open>The loop over the days from the first start to the last end.\<close>

function count_working_days :: "scheduler \<Rightarrow> date \<Rightarrow> date \<Rightarrow> int \<Rightarrow> int" where
  "count_working_days s current end_date working_days =
     (if current \<le> end_date then
        count_working_days s (current + 1) end_date
          (if list_ex (\<lambda>product. is_working_day s (midnight current) product)
                (map fst (product_tasks s))
           then working_days + 1 else working_days)
      else working_days)"
  by pat_completeness auto
termination
  by (relation "measure (\<lambda>(s, current, end_date, w). nat (end_date + 1 - current))") auto

declare count_working_days.simps [simp del]

definition min_list_int :: "int list \<Rightarrow> int" where
  "min_list_int xs = fold min (tl xs) (hd xs)"

definition max_list_int :: "int list \<Rightarrow> int" where
  "max_list_int xs = fold max (tl xs) (hd xs)"

text \<open>Both \<^verbatim>\<open>min\<close> and \<^verbatim>\<open>max\<close> are taken over a schedule that the first guard has
  shown to be non-empty.\<close>

definition calculate_makespan :: "scheduler \<Rightarrow> int" where
  "calculate_makespan s =
     (if task_schedule s = [] then 0
      else if length (task_schedule s) < length (tasks s) then 999999
      else
        let start = min_list_int (map (\<lambda>(t, sched). start_time sched) (task_schedule s));
            end' = max_list_int (map (\<lambda>(t, sched). end_time sched) (task_schedule s))
        in count_working_days s (date_of start) (date_of end') 0)"

subsection \<open>Dependency graph builder (lines 603-743)\<close>

text \<open>\<^verbatim>\<open>constraint.get('Relationship Type') or constraint.get('Relationship')\<close>: the first
  value when it is truthy (a non-empty string), the second otherwise.\<close>

definition get_relationship :: "raw_constraint \<Rightarrow> string option" where
  "get_relationship rc =
     (case rc_Relationship_Type rc of
        Some r \<Rightarrow> if r \<noteq> [] then Some r else rc_Relationship rc
      | None \<Rightarrow> rc_Relationship rc)"

text \<open>\<^verbatim>\<open>any(c['First'] == a and c['Second'] == b for c in dynamic_constraints)\<close>\<close>

definition already_present :: "constraint list \<Rightarrow> task_id \<Rightarrow> task_id \<Rightarrow> bool" where
  "already_present dynamic_constraints a b =
     list_ex (\<lambda>c. First c = a \<and> Second c = b) dynamic_constraints"

text \<open>A dictionary with the three keys \<^verbatim>\<open>'First'\<close>, \<^verbatim>\<open>'Second'\<close> and
  \<^verbatim>\<open>'Relationship'\<close> only.\<close>

definition edge :: "task_id \<Rightarrow> task_id \<Rightarrow> string \<Rightarrow> constraint" where
  "edge a b rel = \<lparr> First = a, Second = b, Relationship = rel, Type = None,
                    Product_Line = None \<rparr>"

definition typed_edge ::
  "task_id \<Rightarrow> task_id \<Rightarrow> string \<Rightarrow> string \<Rightarrow> string option \<Rightarrow> constraint" where
  "typed_edge a b rel ty product =
     \<lparr> First = a, Second = b, Relationship = rel, Type = Some ty,
       Product_Line = Some product \<rparr>"

text \<open>One iteration of loop 1 (lines 618-653): a row without a relationship is skipped.\<close>

definition add_baseline_constraint ::
  "scheduler \<Rightarrow> constraint list \<Rightarrow> raw_constraint \<Rightarrow> constraint list" where
  "add_baseline_constraint s dynamic_constraints rc =
     (let first_task = rc_First rc; second_task = rc_Second rc in
      case get_relationship rc of
        None \<Rightarrow> dynamic_constraints
      | Some relationship \<Rightarrow>
          if relationship = [] then dynamic_constraints
          else
            (case map_of (quality_requirements s) first_task of
               Some qi_task \<Rightarrow>
                 (if \<not> already_present dynamic_constraints first_task qi_task
                  then dynamic_constraints @ [edge first_task qi_task ''Finish = Start'']
                  else dynamic_constraints)
                 @ [edge qi_task second_task relationship]
             | None \<Rightarrow> dynamic_constraints @ [edge first_task second_task relationship]))"

text \<open>One iteration of loop 2 (lines 657-670).\<close>

definition add_late_part_constraint ::
  "constraint list \<Rightarrow> lp_constraint \<Rightarrow> constraint list" where
  "add_late_part_constraint dynamic_constraints lp =
     dynamic_constraints @
       [typed_edge (lp_First lp) (lp_Second lp) ''Finish <= Start'' ''Late Part''
          (lp_Product_Line lp)]"

text \<open>One iteration of loop 3 (lines 680-718).\<close>

definition add_rework_constraint ::
  "scheduler \<Rightarrow> constraint list \<Rightarrow> rw_constraint \<Rightarrow> constraint list" where
  "add_rework_constraint s dynamic_constraints rw =
     (let first_task = rw_First rw; second_task = rw_Second rw;
          relationship = rw_Relationship rw; product = rw_Product_Line rw in
      case map_of (quality_requirements s) first_task of
        Some qi_task \<Rightarrow>
          (if \<not> already_present dynamic_constraints first_task qi_task
           then dynamic_constraints @
                  [typed_edge first_task qi_task ''Finish = Start'' ''Rework QI'' product]
           else dynamic_constraints)
          @ [typed_edge qi_task second_task relationship ''Rework'' product]
      | None \<Rightarrow>
          dynamic_constraints @
            [typed_edge first_task second_task relationship ''Rework'' product])"

text \<open>One iteration of loop 4 (lines 728-736).\<close>

definition add_remaining_qi_constraint ::
  "constraint list \<Rightarrow> task_id \<times> task_id \<Rightarrow> constraint list" where
  "add_remaining_qi_constraint dynamic_constraints item =
     (case item of (primary_task, qi_task) \<Rightarrow>
        if \<not> already_present dynamic_constraints primary_task qi_task
        then dynamic_constraints @ [edge primary_task qi_task ''Finish = Start'']
        else dynamic_constraints)"

text \<open>The edges after loop 1 has run over the given rows.\<close>

definition baseline_constraints :: "scheduler \<Rightarrow> raw_constraint list \<Rightarrow> constraint list" where
  "baseline_constraints s rows = foldl (add_baseline_constraint s) [] rows"

text \<open>The cache \<^verbatim>\<open>_dynamic_constraints_cache\<close> holds the value computed by the first
  call; the tables it is computed from do not change after loading, so the cached list is
  the list computed here.\<close>

definition build_dynamic_dependencies :: "scheduler \<Rightarrow> constraint list" where
  "build_dynamic_dependencies s =
     foldl add_remaining_qi_constraint
       (foldl (add_rework_constraint s)
          (foldl add_late_part_constraint
             (baseline_constraints s (precedence_constraints s))
             (late_part_constraints s))
          (rework_constraints s))
       (quality_requirements s)"

subsection \<open>Load-balanced quality team selection (lines 1262-1290)\<close>

text \<open>\<^verbatim>\<open>sum(sched['duration'] * sched['mechanics_required'] for sched in
  self.task_schedule.values() if sched['team'] == team)\<close>\<close>

definition team_scheduled_minutes :: "scheduler \<Rightarrow> string \<Rightarrow> int" where
  "team_scheduled_minutes s team_name =
     sum_list (map (\<lambda>(t, sched). s_duration sched * s_mechanics_required sched)
                 (filter (\<lambda>(t, sched). s_team sched = Some team_name) (task_schedule s)))"

text \<open>\<^verbatim>\<open>min(items, key=lambda x: x[1])\<close> keeps the first item whose key is smallest: a
  later item replaces the current best only when its key is strictly smaller.\<close>

fun min_by_load :: "string \<times> int \<Rightarrow> (string \<times> int) list \<Rightarrow> string \<times> int" where
  "min_by_load best [] = best"
| "min_by_load best (x # xs) = min_by_load (if snd x < snd best then x else best) xs"

definition available_teams :: "scheduler \<Rightarrow> string \<Rightarrow> string list" where
  "available_teams s shift =
     map fst (filter (\<lambda>(team_name, shifts). shift \<in> set shifts) (quality_team_shifts s))"

definition team_loads :: "scheduler \<Rightarrow> string \<Rightarrow> int \<Rightarrow> (string \<times> int) list" where
  "team_loads s shift mechanics_needed =
     map (\<lambda>team_name. (team_name, team_scheduled_minutes s team_name))
       (filter (\<lambda>team_name. \<not> dict_get (quality_team_capacity s) team_name 0 < mechanics_needed)
          (available_teams s shift))"

definition assign_quality_team_balanced :: "scheduler \<Rightarrow> string \<Rightarrow> int \<Rightarrow> string option" where
  "assign_quality_team_balanced s shift mechanics_needed =
     (if available_teams s shift = [] then None
      else case team_loads s shift mechanics_needed of
             [] \<Rightarrow> None
           | x # xs \<Rightarrow> Some (fst (min_by_load x xs)))"

subsection \<open>Team utilization (lines 2075-2139)\<close>







subsection \<open>Capacity timeline (lines 1167-1188)\<close>

text \<open>\<^verbatim>\<open>self.team_capacity.get(team, 0) or self.quality_team_capacity.get(team, 0)\<close>: the
  first value unless it is 0.  A task whose team is \<^verbatim>\<open>None\<close> finds no key.\<close>

definition capacity_of :: "scheduler \<Rightarrow> string option \<Rightarrow> int" where
  "capacity_of s team_opt =
     (case team_opt of
        None \<Rightarrow> 0
      | Some team_name \<Rightarrow>
          if dict_get (team_capacity s) team_name 0 \<noteq> 0
          then dict_get (team_capacity s) team_name 0
          else dict_get (quality_team_capacity s) team_name 0)"

text \<open>The inner loop: the headcount of the team's placed tasks in progress at one minute.\<close>

definition usage_at :: "(task_id \<times> placement) list \<Rightarrow> string option \<Rightarrow> datetime \<Rightarrow> int" where
  "usage_at schedule team_opt current =
     sum_list (map (\<lambda>(t, sched). s_mechanics_required sched)
       (filter (\<lambda>(t, sched). s_team sched = team_opt
                  \<and> start_time sched \<le> current \<and> current < end_time sched)
          schedule))"

function check_capacity_from ::
  "scheduler \<Rightarrow> string option \<Rightarrow> datetime \<Rightarrow> datetime \<Rightarrow> int \<Rightarrow> bool" where
  "check_capacity_from s team_opt current end_t mechanics_needed =
     (if current < end_t then
        (if usage_at (task_schedule s) team_opt current + mechanics_needed
              > capacity_of s team_opt
         then False
         else check_capacity_from s team_opt (current + 1) end_t mechanics_needed)
      else True)"
  by pat_completeness auto
termination
  by (relation "measure (\<lambda>(s, team_opt, current, end_t, m). nat (end_t - current))") auto

declare check_capacity_from.simps [simp del]

definition check_team_capacity_at_time ::
  "scheduler \<Rightarrow> string option \<Rightarrow> datetime \<Rightarrow> datetime \<Rightarrow> int \<Rightarrow> bool" where
  "check_team_capacity_at_time s team_opt start_t end_t mechanics_needed =
     check_capacity_from s team_opt start_t end_t mechanics_needed"

subsection \<open>Window search (lines 1190-1260)\<close>

datatype error = ValueError | RuntimeError | KeyError

text \<open>The time-of-day test of each of the three shifts.\<close>

definition in_shift_window :: "string \<Rightarrow> int \<Rightarrow> bool" where
  "in_shift_window shift current_minutes =
     (shift = ''1st'' \<and> 360 \<le> current_minutes \<and> current_minutes < 870
      \<or> shift = ''2nd'' \<and> 870 \<le> current_minutes \<and> current_minutes < 1380
      \<or> shift = ''3rd'' \<and> (current_minutes \<ge> 1380 \<or> current_minutes < 360))"

text \<open>\<^verbatim>\<open>any(t for t, shifts in self.quality_team_shifts.items() if shift in shifts)\<close>:
  the generator yields team names, and \<^verbatim>\<open>any\<close> tests their truthiness.\<close>

definition any_quality_team_works :: "scheduler \<Rightarrow> string \<Rightarrow> bool" where
  "any_quality_team_works s shift =
     list_ex (\<lambda>(t, shifts). shift \<in> set shifts \<and> t \<noteq> []) (quality_team_shifts s)"

text \<open>Lines 1209-1238: the first shift of the list scanned whose window holds the current
  time of day (and, for quality work, that some quality team works).\<close>

definition find_available_shift ::
  "scheduler \<Rightarrow> string option \<Rightarrow> bool \<Rightarrow> int \<Rightarrow> string option" where
  "find_available_shift s team_opt is_q current_minutes =
     (if is_q then
        List.find (\<lambda>shift. in_shift_window shift current_minutes
                      \<and> any_quality_team_works s shift)
          [''1st'', ''2nd'', ''3rd'']
      else
        List.find (\<lambda>shift. in_shift_window shift current_minutes)
          (case team_opt of None \<Rightarrow> [] | Some team_name \<Rightarrow> dict_get (team_shifts s) team_name []))"

text \<open>Lines 1250-1258: move to the next shift boundary.\<close>

definition next_shift_start :: "datetime \<Rightarrow> datetime" where
  "next_shift_start current_time =
     (let current_minutes = minutes_of_day current_time in
      if current_minutes < 360 then replace_time current_time 6 0
      else if current_minutes < 870 then replace_time current_time 14 30
      else if current_minutes < 1380 then replace_time current_time 23 0
      else replace_time current_time 6 0 + 1440)"

definition max_search_iterations :: nat where
  "max_search_iterations = 5000"

text \<open>The \<^verbatim>\<open>while\<close> loop.  Besides the outcome (the slot returned, or the
  \<^verbatim>\<open>RuntimeError\<close> raised after the loop), the model returns the final value of the
  counter \<^verbatim>\<open>iterations\<close>.\<close>

function next_working_time_loop ::
  "scheduler \<Rightarrow> datetime \<Rightarrow> string \<Rightarrow> string option \<Rightarrow> int \<Rightarrow> int \<Rightarrow> bool \<Rightarrow> nat
     \<Rightarrow> (error + (datetime \<times> string)) \<times> nat" where
  "next_working_time_loop s current_time product_line team_opt mechanics_needed dur is_q iterations =
     (if iterations < max_search_iterations then
        (if \<not> is_working_day s current_time product_line then
           next_working_time_loop s (replace_time current_time 6 0 + 1440) product_line team_opt
             mechanics_needed dur is_q (iterations + 1)
         else
           (case find_available_shift s team_opt is_q (minutes_of_day current_time) of
              Some available_shift \<Rightarrow>
                if check_team_capacity_at_time s team_opt current_time (current_time + dur)
                     mechanics_needed
                then (Inr (current_time, available_shift), iterations + 1)
                else next_working_time_loop s (current_time + 1) product_line team_opt
                       mechanics_needed dur is_q (iterations + 1)
            | None \<Rightarrow>
                next_working_time_loop s (next_shift_start current_time) product_line team_opt
                  mechanics_needed dur is_q (iterations + 1)))
      else (Inl RuntimeError, iterations))"
  by pat_completeness auto
termination
  by (relation "measure (\<lambda>(s, ct, pl, tm, mn, d, q, iterations).
                  max_search_iterations - iterations)") auto

declare next_working_time_loop.simps [simp del]

definition get_next_working_time_with_capacity ::
  "scheduler \<Rightarrow> datetime \<Rightarrow> string \<Rightarrow> string option \<Rightarrow> int \<Rightarrow> int \<Rightarrow> bool
     \<Rightarrow> error + (datetime \<times> string)" where
  "get_next_working_time_with_capacity s current_time product_line team_opt mechanics_needed
       dur is_q =
     fst (next_working_time_loop s current_time product_line team_opt mechanics_needed dur
            is_q 0)"

subsection \<open>Earliest start of a late part (lines 745-757)\<close>

text \<open>\<^verbatim>\<open>on_dock_date + timedelta(days=self.late_part_delay_days)\<close> followed by
  \<^verbatim>\<open>replace(hour=6, minute=0, second=0, microsecond=0)\<close>: 06:00 on the calendar day that
  holds the on-dock instant plus the delay.  The delay is a number of days that need not be
  whole; it is modelled as a rational.\<close>

definition get_earliest_start_for_late_part :: "scheduler \<Rightarrow> task_id \<Rightarrow> datetime" where
  "get_earliest_start_for_late_part s task =
     (case map_of (on_dock_dates s) task of
        None \<Rightarrow> start_date
      | Some on_dock_date \<Rightarrow>
          \<lfloor>(of_int on_dock_date + late_part_delay_days s * 1440) / 1440\<rfloor> * 1440 + 360)"

subsection \<open>DAG validation (lines 1030-1155)\<close>

text \<open>The depth-first search of lines 1082-1107 answers whether the directed graph of the
  edges has a cycle; it is modelled by that answer.  The product-association and
  reachability checks only print warnings.\<close>

definition has_cycle :: "constraint list \<Rightarrow> bool" where
  "has_cycle dynamic_constraints =
     list_ex (\<lambda>node. (node, node) \<in> (set (map (\<lambda>c. (First c, Second c)) dynamic_constraints))\<^sup>+)
       (map First dynamic_constraints)"

definition missing_tasks :: "scheduler \<Rightarrow> constraint list \<Rightarrow> task_id list" where
  "missing_tasks s dynamic_constraints =
     filter (\<lambda>t. t \<notin> set (map fst (tasks s)))
       (remdups (concat (map (\<lambda>c. [First c, Second c]) dynamic_constraints)))"

definition validate_dag :: "scheduler \<Rightarrow> bool" where
  "validate_dag s =
     (let dynamic_constraints = build_dynamic_dependencies s in
      if missing_tasks s dynamic_constraints \<noteq> [] then False
      else if has_cycle dynamic_constraints then False
      else True)"

subsection \<open>The list scheduler (lines 759-1028)\<close>

text \<open>
  Two things the scheduler reads from its runtime are parameters of the model.

  \<^item> \<^verbatim>\<open>calculate_task_priority\<close> (lines 1319-1371) computes a floating-point score from
    \<^verbatim>\<open>datetime.now()\<close>, the delivery date, the critical path and the duration.  The
    scheduler uses the score only as the key of the ready heap, so the score of each task
    is taken as a given number.
  \<^item> \<^verbatim>\<open>dependencies[task_id]\<close> is a Python \<^verbatim>\<open>set\<close>; the order in which
    \<^verbatim>\<open>for dep in ...\<close> visits its elements is fixed by the interpreter and not by the
    program, so it is a function from the elements to the order of the visit.
\<close>

record runtime =
  calculate_task_priority :: "task_id \<Rightarrow> rat"
  set_iteration_order :: "task_id list \<Rightarrow> task_id list"

text \<open>Lines 789-795: the three relationship strings that create a dependency.\<close>

definition creates_dependency :: "string \<Rightarrow> bool" where
  "creates_dependency rel =
     (rel \<in> set [''Finish <= Start'', ''Finish = Start''] \<or> rel = ''Start <= Start'')"

text \<open>The elements of the sets \<^verbatim>\<open>dependencies[t]\<close> and \<^verbatim>\<open>dependents[t]\<close>.\<close>

definition dependencies :: "constraint list \<Rightarrow> task_id \<Rightarrow> task_id list" where
  "dependencies dynamic_constraints t =
     remdups (map First
       (filter (\<lambda>c. Second c = t \<and> creates_dependency (Relationship c)) dynamic_constraints))"

definition dependents :: "constraint list \<Rightarrow> task_id \<Rightarrow> task_id list" where
  "dependents dynamic_constraints t =
     remdups (map Second
       (filter (\<lambda>c. First c = t \<and> creates_dependency (Relationship c)) dynamic_constraints))"

text \<open>The ready heap: \<^verbatim>\<open>heapq\<close> pops the smallest tuple \<^verbatim>\<open>(priority, task)\<close>.\<close>

definition entry_before :: "rat \<times> task_id \<Rightarrow> rat \<times> task_id \<Rightarrow> bool" where
  "entry_before a b = (fst a < fst b \<or> fst a = fst b \<and> snd a < snd b)"

fun smallest_entry :: "rat \<times> task_id \<Rightarrow> (rat \<times> task_id) list \<Rightarrow> rat \<times> task_id" where
  "smallest_entry best [] = best"
| "smallest_entry best (x # xs) = smallest_entry (if entry_before x best then x else best) xs"

definition heappush :: "(rat \<times> task_id) list \<Rightarrow> rat \<times> task_id \<Rightarrow> (rat \<times> task_id) list" where
  "heappush heap x = heap @ [x]"

text \<open>Only called on a non-empty heap.\<close>

definition heappop ::
  "(rat \<times> task_id) list \<Rightarrow> (rat \<times> task_id) \<times> (rat \<times> task_id) list" where
  "heappop heap = (let m = smallest_entry (hd heap) (tl heap) in (m, remove1 m heap))"

datatype 'a control = Continue 'a | Break 'a | Raise error

text \<open>The variables of the loop; \<^verbatim>\<open>self\<close> carries \<^verbatim>\<open>self.task_schedule\<close>.\<close>

record loop_state =
  self :: scheduler
  ready_tasks :: "(rat \<times> task_id) list"
  scheduled_count :: nat
  retry_count :: nat
  failed_tasks :: "task_id list"
  task_retry_counts :: "task_id \<Rightarrow> nat"
  iteration_count :: nat

text \<open>\<^verbatim>\<open>t in self.task_schedule\<close>\<close>

definition in_schedule :: "scheduler \<Rightarrow> task_id \<Rightarrow> bool" where
  "in_schedule s t = (t \<in> set (map fst (task_schedule s)))"

text \<open>\<^verbatim>\<open>d in self.task_schedule or d in failed_tasks\<close>\<close>

definition is_done :: "loop_state \<Rightarrow> task_id \<Rightarrow> bool" where
  "is_done st d = (in_schedule (self st) d \<or> d \<in> set (failed_tasks st))"

text \<open>\<^verbatim>\<open>self.task_schedule[task_id] = ...\<close>: a new key is appended, an old key keeps its
  place.\<close>

fun dict_set :: "('k \<times> 'v) list \<Rightarrow> 'k \<Rightarrow> 'v \<Rightarrow> ('k \<times> 'v) list" where
  "dict_set [] k v = [(k, v)]"
| "dict_set (p # ps) k v = (if fst p = k then (k, v) # ps else p # dict_set ps k v)"

definition push_tasks :: "runtime \<Rightarrow> loop_state \<Rightarrow> task_id list \<Rightarrow> loop_state" where
  "push_tasks rt st ts =
     st \<lparr> ready_tasks :=
            foldl heappush (ready_tasks st)
              (map (\<lambda>task. (calculate_task_priority rt task, task)) ts) \<rparr>"

text \<open>Lines 836-847: the unscheduled tasks all of whose dependencies are placed or failed.\<close>

definition find_newly_ready :: "constraint list \<Rightarrow> task_id list \<Rightarrow> loop_state \<Rightarrow> task_id list" where
  "find_newly_ready dynamic_constraints all_tasks st =
     (let unscheduled =
            filter (\<lambda>t. \<not> in_schedule (self st) t \<and> t \<notin> set (failed_tasks st)) all_tasks
      in filter (\<lambda>task. filter (\<lambda>d. \<not> is_done st d) (dependencies dynamic_constraints task) = [])
           unscheduled)"

text \<open>Lines 875-886: the first product, in the order of \<^verbatim>\<open>product_tasks\<close>, that lists the
  task (or, for a quality task, its primary task).\<close>

definition find_product_line :: "scheduler \<Rightarrow> task_id \<Rightarrow> string option" where
  "find_product_line s task =
     (case map_of (quality_inspections s) task of
        Some primary_task \<Rightarrow>
          map_option fst
            (List.find (\<lambda>(product, ts). primary_task \<in> set ts \<or> task \<in> set ts) (product_tasks s))
      | None \<Rightarrow>
          map_option fst (List.find (\<lambda>(product, ts). task \<in> set ts) (product_tasks s)))"

text \<open>Lines 917-924.\<close>

definition is_finish_equals_start :: "constraint list \<Rightarrow> task_id \<Rightarrow> task_id \<Rightarrow> bool" where
  "is_finish_equals_start dynamic_constraints dep task =
     list_ex (\<lambda>c. First c = dep \<and> Second c = task \<and> Relationship c = ''Finish = Start'')
       dynamic_constraints"

text \<open>Lines 912-929: the loop over the dependencies, in the order of the visit.\<close>

fun apply_dependencies ::
  "constraint list \<Rightarrow> (task_id \<times> placement) list \<Rightarrow> task_id \<Rightarrow> task_id list \<Rightarrow> datetime
     \<Rightarrow> datetime" where
  "apply_dependencies dynamic_constraints schedule task [] earliest_start = earliest_start"
| "apply_dependencies dynamic_constraints schedule task (dep # deps) earliest_start =
     (case map_of schedule dep of
        None \<Rightarrow> apply_dependencies dynamic_constraints schedule task deps earliest_start
      | Some dep_sched \<Rightarrow>
          if is_finish_equals_start dynamic_constraints dep task
          then apply_dependencies dynamic_constraints schedule task deps (end_time dep_sched)
          else apply_dependencies dynamic_constraints schedule task deps
                 (max earliest_start (end_time dep_sched)))"

text \<open>Lines 901-929; \<^verbatim>\<open>current_time\<close> is the start date throughout the loop.\<close>

definition find_earliest_start ::
  "runtime \<Rightarrow> constraint list \<Rightarrow> scheduler \<Rightarrow> task_id \<Rightarrow> datetime" where
  "find_earliest_start rt dynamic_constraints s task =
     apply_dependencies dynamic_constraints (task_schedule s) task
       (set_iteration_order rt (dependencies dynamic_constraints task))
       (if task \<in> set (late_part_tasks s)
        then max start_date (get_earliest_start_for_late_part s task)
        else start_date)"

text \<open>Lines 941-953: the shifts are tried in order; an exception of the window search is
  swallowed; a later candidate replaces the current one only when it starts strictly
  earlier.  The result is \<^verbatim>\<open>(scheduled_start, team, shift)\<close>.\<close>

fun try_quality_shifts ::
  "scheduler \<Rightarrow> datetime \<Rightarrow> string \<Rightarrow> int \<Rightarrow> int \<Rightarrow> string list
     \<Rightarrow> (datetime \<times> string \<times> string) option \<Rightarrow> (datetime \<times> string \<times> string) option" where
  "try_quality_shifts s earliest_start product_line mechanics_needed dur [] best = best"
| "try_quality_shifts s earliest_start product_line mechanics_needed dur (try_shift # rest) best =
     (case assign_quality_team_balanced s try_shift mechanics_needed of
        None \<Rightarrow> try_quality_shifts s earliest_start product_line mechanics_needed dur rest best
      | Some temp_team \<Rightarrow>
          if temp_team = [] then
            try_quality_shifts s earliest_start product_line mechanics_needed dur rest best
          else
            (case get_next_working_time_with_capacity s earliest_start product_line
                    (Some temp_team) mechanics_needed dur True of
               Inl e \<Rightarrow>
                 try_quality_shifts s earliest_start product_line mechanics_needed dur rest best
             | Inr (temp_start, returned_shift) \<Rightarrow>
                 (case best of
                    None \<Rightarrow>
                      try_quality_shifts s earliest_start product_line mechanics_needed dur rest
                        (Some (temp_start, temp_team, try_shift))
                  | Some (scheduled_start, best_team, best_shift) \<Rightarrow>
                      if temp_start < scheduled_start then
                        try_quality_shifts s earliest_start product_line mechanics_needed dur rest
                          (Some (temp_start, temp_team, try_shift))
                      else
                        try_quality_shifts s earliest_start product_line mechanics_needed dur
                          rest best)))"

text \<open>Lines 935-974: the slot found for the task, or \<^verbatim>\<open>None\<close> when the placement fails.\<close>

definition find_slot ::
  "scheduler \<Rightarrow> datetime \<Rightarrow> string \<Rightarrow> task_info
     \<Rightarrow> (datetime \<times> string option \<times> string) option" where
  "find_slot s earliest_start product_line info =
     (if is_quality info then
        (case try_quality_shifts s earliest_start product_line (mechanics_required info)
                (duration info) [''1st'', ''2nd'', ''3rd''] None of
           None \<Rightarrow> None
         | Some (scheduled_start, team_name, shift) \<Rightarrow> Some (scheduled_start, Some team_name, shift))
      else
        (case get_next_working_time_with_capacity s earliest_start product_line (team info)
                (mechanics_required info) (duration info) False of
           Inl e \<Rightarrow> None
         | Inr (scheduled_start, shift) \<Rightarrow> Some (scheduled_start, team info, shift)))"

text \<open>Lines 956-961 and 969-974: count the failure, push the task back with a priority
  penalty, or give it up after the third failure.\<close>

definition retry_task :: "loop_state \<Rightarrow> rat \<Rightarrow> task_id \<Rightarrow> loop_state" where
  "retry_task st priority task =
     (let counts = (task_retry_counts st) (task := task_retry_counts st task + 1);
          st1 = st \<lparr> task_retry_counts := counts \<rparr>
      in if counts task < 3
         then st1 \<lparr> ready_tasks := heappush (ready_tasks st1) (priority + 1 / 10, task) \<rparr>
         else st1 \<lparr> failed_tasks := List.insert task (failed_tasks st1) \<rparr>)"

text \<open>Lines 1005-1012: the dependents of the task just placed that became ready.\<close>

definition ready_dependents :: "constraint list \<Rightarrow> loop_state \<Rightarrow> task_id \<Rightarrow> task_id list" where
  "ready_dependents dynamic_constraints st task =
     filter (\<lambda>dependent. \<not> is_done st dependent
               \<and> list_all (is_done st) (dependencies dynamic_constraints dependent))
       (dependents dynamic_constraints task)"

text \<open>Lines 977-989: the dictionary stored for the task.\<close>

definition placement_entry ::
  "task_info \<Rightarrow> string \<Rightarrow> datetime \<times> string option \<times> string \<Rightarrow> placement" where
  "placement_entry info product_line slot =
     (case slot of (scheduled_start, team_opt, shift) \<Rightarrow>
        \<lparr> start_time = scheduled_start,
          end_time = scheduled_start + duration info,
          s_team = team_opt,
          s_product_line = product_line,
          s_duration = duration info,
          s_mechanics_required = mechanics_required info,
          s_is_quality = is_quality info,
          s_task_type = task_type info,
          s_shift = shift \<rparr>)"

text \<open>Lines 977-1012: record the placement and release the dependents.\<close>

definition record_placement ::
  "runtime \<Rightarrow> constraint list \<Rightarrow> loop_state \<Rightarrow> task_id \<Rightarrow> task_info \<Rightarrow> string
     \<Rightarrow> datetime \<times> string option \<times> string \<Rightarrow> loop_state" where
  "record_placement rt dynamic_constraints st task info product_line slot =
     (let st1 = st \<lparr> self := (self st) \<lparr> task_schedule :=
                                   dict_set (task_schedule (self st)) task
                                     (placement_entry info product_line slot) \<rparr>,
                      scheduled_count := scheduled_count st + 1,
                      retry_count := 0 \<rparr>
      in push_tasks rt st1 (ready_dependents dynamic_constraints st1 task))"

text \<open>Lines 862-1012: the work on the task popped from the heap.\<close>

definition process_task ::
  "runtime \<Rightarrow> constraint list \<Rightarrow> loop_state \<Rightarrow> rat \<Rightarrow> task_id \<Rightarrow> loop_state control" where
  "process_task rt dynamic_constraints st priority task =
     (if task_retry_counts st task \<ge> 3 then
        Continue (st \<lparr> failed_tasks := List.insert task (failed_tasks st) \<rparr>)
      else
        (case find_product_line (self st) task of
           None \<Rightarrow> Continue st
         | Some product_line \<Rightarrow>
             if product_line = [] then Continue st
             else
               (case map_of (tasks (self st)) task of
                  None \<Rightarrow> Raise KeyError
                | Some info \<Rightarrow>
                    (case find_slot (self st)
                            (find_earliest_start rt dynamic_constraints (self st) task)
                            product_line info of
                       None \<Rightarrow> Continue (retry_task st priority task)
                     | Some slot \<Rightarrow>
                         Continue (record_placement rt dynamic_constraints st task info
                                     product_line slot)))))"

text \<open>Lines 855-860.\<close>

definition pop_and_process ::
  "runtime \<Rightarrow> constraint list \<Rightarrow> loop_state \<Rightarrow> loop_state control" where
  "pop_and_process rt dynamic_constraints st =
     (if ready_tasks st = [] then Break st
      else
        (case heappop (ready_tasks st) of
           ((priority, task), rest) \<Rightarrow>
             process_task rt dynamic_constraints (st \<lparr> ready_tasks := rest \<rparr>) priority task))"

text \<open>Lines 830-1012: one iteration of the main loop.\<close>

definition loop_body ::
  "runtime \<Rightarrow> constraint list \<Rightarrow> bool \<Rightarrow> task_id list \<Rightarrow> loop_state \<Rightarrow> loop_state control" where
  "loop_body rt dynamic_constraints silent_mode all_tasks st =
     (let st1 = st \<lparr> iteration_count := iteration_count st + 1 \<rparr> in
      if ready_tasks st1 = []
         \<and> scheduled_count st1 + length (failed_tasks st1) < length all_tasks
      then
        (let newly_ready = find_newly_ready dynamic_constraints all_tasks st1;
             st2 = push_tasks rt st1 newly_ready
         in if newly_ready = [] \<and> \<not> silent_mode then Break st2
            else pop_and_process rt dynamic_constraints st2)
      else pop_and_process rt dynamic_constraints st1)"

definition max_retries :: nat where
  "max_retries = 5"

text \<open>Every path through one iteration adds one to \<^verbatim>\<open>iteration_count\<close>.\<close>

lemma push_tasks_iteration_count [simp]:
  "iteration_count (push_tasks rt st ts) = iteration_count st"
  by (simp add: push_tasks_def)

lemma retry_task_iteration_count [simp]:
  "iteration_count (retry_task st priority task) = iteration_count st"
  by (simp add: retry_task_def Let_def)

lemma record_placement_iteration_count [simp]:
  "iteration_count (record_placement rt dc st task info product_line slot) = iteration_count st"
  by (simp add: record_placement_def Let_def split: prod.split)

lemma process_task_iteration_count:
  "process_task rt dc st priority task = Continue st' \<or> process_task rt dc st priority task = Break st'
   \<Longrightarrow> iteration_count st' = iteration_count st"
  by (auto simp: process_task_def split: if_splits option.splits)

lemma pop_and_process_iteration_count:
  "pop_and_process rt dc st = Continue st' \<or> pop_and_process rt dc st = Break st'
   \<Longrightarrow> iteration_count st' = iteration_count st"
  by (auto simp: pop_and_process_def split: if_splits prod.splits
      dest!: process_task_iteration_count [OF disjI1] process_task_iteration_count [OF disjI2])

lemma loop_body_iteration_count:
  "loop_body rt dc silent_mode all_tasks st = Continue st'
     \<or> loop_body rt dc silent_mode all_tasks st = Break st'
   \<Longrightarrow> iteration_count st' = iteration_count st + 1"
  by (auto simp: loop_body_def Let_def split: if_splits
      dest!: pop_and_process_iteration_count [OF disjI1] pop_and_process_iteration_count [OF disjI2])

text \<open>Lines 828-829: the main loop.  \<^verbatim>\<open>total_tasks\<close> is the length of \<^verbatim>\<open>all_tasks\<close> and
  \<^verbatim>\<open>max_iterations\<close> is ten times that.\<close>

function schedule_loop ::
  "runtime \<Rightarrow> constraint list \<Rightarrow> bool \<Rightarrow> task_id list \<Rightarrow> loop_state \<Rightarrow> error + loop_state" where
  "schedule_loop rt dynamic_constraints silent_mode all_tasks st =
     (if (ready_tasks st \<noteq> [] \<or> scheduled_count st < length all_tasks)
         \<and> retry_count st < max_retries
         \<and> iteration_count st < length all_tasks * 10
      then
        (case loop_body rt dynamic_constraints silent_mode all_tasks st of
           Continue st' \<Rightarrow> schedule_loop rt dynamic_constraints silent_mode all_tasks st'
         | Break st' \<Rightarrow> Inr st'
         | Raise e \<Rightarrow> Inl e)
      else Inr st)"
  by pat_completeness auto
termination
proof (relation "measure (\<lambda>(rt, dc, silent_mode, all_tasks, st).
                   length all_tasks * 10 - iteration_count st)")
  show "wf (measure (\<lambda>(rt, dc, silent_mode, all_tasks, st).
                   length all_tasks * 10 - iteration_count st))"
    by simp
next
  fix rt :: runtime and dynamic_constraints silent_mode all_tasks and st st' :: loop_state
  assume "(ready_tasks st \<noteq> [] \<or> scheduled_count st < length all_tasks)
         \<and> retry_count st < max_retries
         \<and> iteration_count st < length all_tasks * 10"
    and "loop_body rt dynamic_constraints silent_mode all_tasks st = Continue st'"
  then show "((rt, dynamic_constraints, silent_mode, all_tasks, st'),
              (rt, dynamic_constraints, silent_mode, all_tasks, st))
             \<in> measure (\<lambda>(rt, dc, silent_mode, all_tasks, st).
                   length all_tasks * 10 - iteration_count st)"
    using loop_body_iteration_count [of rt dynamic_constraints silent_mode all_tasks st st']
    by auto
qed

declare schedule_loop.simps [simp del]

text \<open>Lines 797-826: the state on entry to the loop.\<close>

definition initial_state :: "runtime \<Rightarrow> constraint list \<Rightarrow> task_id list \<Rightarrow> scheduler \<Rightarrow> loop_state" where
  "initial_state rt dynamic_constraints all_tasks s =
     push_tasks rt
       \<lparr> self = s, ready_tasks = [], scheduled_count = 0, retry_count = 0,
         failed_tasks = [], task_retry_counts = (\<lambda>t. 0), iteration_count = 0 \<rparr>
       (filter (\<lambda>task. dependencies dynamic_constraints task = []) all_tasks)"

text \<open>\<^verbatim>\<open>set(self.tasks.keys())\<close>\<close>

definition all_task_ids :: "scheduler \<Rightarrow> task_id list" where
  "all_task_ids s = remdups (map fst (tasks s))"

text \<open>The whole of \<^verbatim>\<open>schedule_tasks\<close>: the final state of the loop, or the exception
  that left it.  The debug flag and the critical-path cache do not influence the
  placements.\<close>

definition schedule_tasks_state :: "runtime \<Rightarrow> scheduler \<Rightarrow> bool \<Rightarrow> error + loop_state" where
  "schedule_tasks_state rt s silent_mode =
     (let s0 = s \<lparr> task_schedule := [] \<rparr> in
      if \<not> silent_mode \<and> \<not> validate_dag s0 then Inl ValueError
      else
        let dynamic_constraints = build_dynamic_dependencies s0;
            all_tasks = all_task_ids s0
        in schedule_loop rt dynamic_constraints silent_mode all_tasks
             (initial_state rt dynamic_constraints all_tasks s0))"

definition schedule_tasks :: "runtime \<Rightarrow> scheduler \<Rightarrow> bool \<Rightarrow> error + scheduler" where
  "schedule_tasks rt s silent_mode =
     (case schedule_tasks_state rt s silent_mode of
        Inl e \<Rightarrow> Inl e
      | Inr st \<Rightarrow> Inr (self st))"

text \<open>No edge of the effective graph into the task carries \<^verbatim>\<open>Finish = Start\<close>.\<close>

definition no_finish_equals_start_into :: "constraint list \<Rightarrow> task_id \<Rightarrow> bool" where
  "no_finish_equals_start_into dynamic_constraints t =
     list_all (\<lambda>c. \<not> (Second c = t \<and> Relationship c = ''Finish = Start'')) dynamic_constraints"

subsection \<open>Scenario runs and the capacity maps\<close>

text \<open>\<^verbatim>\<open>generate_global_priority_list\<close> (lines 1481-1542) first runs \<^verbatim>\<open>schedule_tasks\<close>
  and then builds the ranked list from the schedule; the second part reads the schedule
  and does not write the capacity maps.  The model keeps the scheduler after the run, or
  the exception that \<^verbatim>\<open>schedule_tasks\<close> raised.\<close>

definition generate_global_priority_list :: "runtime \<Rightarrow> scheduler \<Rightarrow> bool \<Rightarrow> error + scheduler" where
  "generate_global_priority_list rt s silent_mode = schedule_tasks rt s silent_mode"

text \<open>\<^verbatim>\<open>for team in caps: caps[team] = headcount\<close>\<close>

definition set_all_capacities :: "(string \<times> int) list \<Rightarrow> int \<Rightarrow> (string \<times> int) list" where
  "set_all_capacities caps headcount = map (\<lambda>(team_name, c). (team_name, headcount)) caps"

text \<open>\<^verbatim>\<open>for team, capacity in custom.items(): if team in caps: caps[team] = capacity\<close>\<close>

definition set_custom_capacities ::
  "(string \<times> int) list \<Rightarrow> (string \<times> int) list \<Rightarrow> (string \<times> int) list" where
  "set_custom_capacities caps custom =
     foldl (\<lambda>d (team_name, capacity).
              if team_name \<in> set (map fst d) then dict_set d team_name capacity else d)
       caps custom"

text \<open>\<^verbatim>\<open>for team, capacity in originals.items(): caps[team] = capacity\<close>\<close>

definition restore_capacities ::
  "(string \<times> int) list \<Rightarrow> (string \<times> int) list \<Rightarrow> (string \<times> int) list" where
  "restore_capacities caps originals =
     foldl (\<lambda>d (team_name, capacity). dict_set d team_name capacity) caps originals"

text \<open>Lines 1776-1791: the capacities chosen by the caller of scenario 1.\<close>

definition apply_headcount ::
  "(string \<times> int) list \<Rightarrow> (string \<times> int) list option \<Rightarrow> int option \<Rightarrow> (string \<times> int) list" where
  "apply_headcount caps custom headcount =
     (case custom of
        Some (x # xs) \<Rightarrow> set_custom_capacities caps (x # xs)
      | _ \<Rightarrow> (case headcount of
                Some h \<Rightarrow> set_all_capacities caps h
              | None \<Rightarrow> caps))"

text \<open>Lines 1757-1843.  The result is the outcome of the call (the makespan stands for the
  dictionary returned, an error for an exception that leaves the method) together with the
  two capacity maps of \<^verbatim>\<open>self\<close> when the call is left.\<close>

definition scenario_1_custom_headcount ::
  "runtime \<Rightarrow> scheduler \<Rightarrow> int option \<Rightarrow> int option
     \<Rightarrow> (string \<times> int) list option \<Rightarrow> (string \<times> int) list option
     \<Rightarrow> (error + int) \<times> (string \<times> int) list \<times> (string \<times> int) list" where
  "scenario_1_custom_headcount rt s mechanic_headcount quality_headcount
       custom_team_capacity custom_quality_capacity =
     (let original_team = team_capacity s;
          original_quality = quality_team_capacity s;
          s1 = s \<lparr> team_capacity :=
                     apply_headcount (team_capacity s) custom_team_capacity mechanic_headcount \<rparr>;
          s2 = s1 \<lparr> quality_team_capacity :=
                     apply_headcount (quality_team_capacity s1) custom_quality_capacity
                       quality_headcount \<rparr>
      in case generate_global_priority_list rt s2 False of
           Inl e \<Rightarrow> (Inl e, team_capacity s2, quality_team_capacity s2)
         | Inr s3 \<Rightarrow> (Inr (calculate_makespan s3), original_team, original_quality))"

text \<open>Lines 1869-1906: the binary search over the mechanic headcount.  \<^verbatim>\<open>best_makespan\<close>
  starts at infinity, modelled by \<open>None\<close>.\<close>

function mechanic_search ::
  "runtime \<Rightarrow> scheduler \<Rightarrow> int \<Rightarrow> int \<Rightarrow> int \<Rightarrow> int option \<Rightarrow> int
     \<Rightarrow> scheduler \<times> int option \<times> int" where
  "mechanic_search rt s max_quality mech_low mech_high best_makespan best_mech =
     (if mech_low \<le> mech_high then
        (let mech_mid = (mech_low + mech_high) div 2;
             s1 = s \<lparr> team_capacity := set_all_capacities (team_capacity s) mech_mid,
                      quality_team_capacity :=
                        set_all_capacities (quality_team_capacity s) max_quality \<rparr>
         in case generate_global_priority_list rt s1 True of
              Inl e \<Rightarrow>
                mechanic_search rt s1 max_quality (mech_mid + 1) mech_high best_makespan best_mech
            | Inr s2 \<Rightarrow>
                if length (task_schedule s2) < length (tasks s2) then
                  mechanic_search rt s2 max_quality (mech_mid + 1) mech_high best_makespan best_mech
                else
                  (let makespan = calculate_makespan s2 in
                   if (case best_makespan of None \<Rightarrow> True | Some b \<Rightarrow> makespan < b) then
                     mechanic_search rt s2 max_quality mech_low (mech_mid - 1) (Some makespan)
                       mech_mid
                   else
                     mechanic_search rt s2 max_quality (mech_mid + 1) mech_high best_makespan
                       best_mech))
      else (s, best_makespan, best_mech))"
  by pat_completeness auto
termination
  by (relation "measure (\<lambda>(rt, s, mq, lo, hi, bm, b). nat (hi + 1 - lo))") auto

declare mechanic_search.simps [simp del]

text \<open>Lines 1919-1954: the binary search over the quality headcount.\<close>

function quality_search ::
  "runtime \<Rightarrow> scheduler \<Rightarrow> int \<Rightarrow> int \<Rightarrow> int option \<Rightarrow> int
     \<Rightarrow> scheduler \<times> int option \<times> int" where
  "quality_search rt s qual_low qual_high best_makespan best_qual =
     (if qual_low \<le> qual_high then
        (let qual_mid = (qual_low + qual_high) div 2;
             s1 = s \<lparr> quality_team_capacity :=
                        set_all_capacities (quality_team_capacity s) qual_mid \<rparr>
         in case generate_global_priority_list rt s1 True of
              Inl e \<Rightarrow> quality_search rt s1 (qual_mid + 1) qual_high best_makespan best_qual
            | Inr s2 \<Rightarrow>
                if length (task_schedule s2) < length (tasks s2) then
                  quality_search rt s2 (qual_mid + 1) qual_high best_makespan best_qual
                else
                  (let makespan = calculate_makespan s2 in
                   if (case best_makespan of None \<Rightarrow> True | Some b \<Rightarrow> makespan \<le> b) then
                     quality_search rt s2 qual_low (qual_mid - 1) (Some makespan) qual_mid
                   else
                     quality_search rt s2 (qual_mid + 1) qual_high best_makespan best_qual))
      else (s, best_makespan, best_qual))"
  by pat_completeness auto
termination
  by (relation "measure (\<lambda>(rt, s, lo, hi, bm, b). nat (hi + 1 - lo))") auto

declare quality_search.simps [simp del]

text \<open>Lines 1846-2021.  The result is \<^verbatim>\<open>(optimal_mechanics, optimal_quality, makespan)\<close>,
  or the exception of the final run, which is not inside a \<^verbatim>\<open>try\<close>.\<close>

definition scenario_2_minimize_makespan ::
  "runtime \<Rightarrow> scheduler \<Rightarrow> int \<Rightarrow> int \<Rightarrow> int \<Rightarrow> int
     \<Rightarrow> (error + int \<times> int \<times> int) \<times> (string \<times> int) list \<times> (string \<times> int) list" where
  "scenario_2_minimize_makespan rt s min_mechanics max_mechanics min_quality max_quality =
     (case mechanic_search rt s max_quality min_mechanics max_mechanics None max_mechanics of
        (s1, best_makespan, best_mech) \<Rightarrow>
          (let s2 = s1 \<lparr> team_capacity := set_all_capacities (team_capacity s1) best_mech \<rparr> in
           (case quality_search rt s2 min_quality max_quality best_makespan max_quality of
              (s3, best_makespan', best_qual) \<Rightarrow>
                (let s4 = s3 \<lparr> team_capacity := set_all_capacities (team_capacity s3) best_mech,
                               quality_team_capacity :=
                                 set_all_capacities (quality_team_capacity s3) best_qual,
                               task_schedule := [] \<rparr>
                 in (case generate_global_priority_list rt s4 True of
                       Inl e \<Rightarrow> (Inl e, team_capacity s4, quality_team_capacity s4)
                     | Inr s5 \<Rightarrow>
                         (Inr (best_mech, best_qual, calculate_makespan s5),
                          restore_capacities (team_capacity s5) (original_team_capacity s5),
                          restore_capacities (quality_team_capacity s5)
                            (original_quality_capacity s5)))))))"

text \<open>Lines 2172-2564.  The two search phases and the final run (lines 2198-2372 and
  2382-2548) are a parameter: the scheduler they leave in \<^verbatim>\<open>self\<close> and their outcome, which
  is an exception that leaves the method (the runs of lines 2409 and 2472 are outside a
  \<^verbatim>\<open>try\<close>), no feasible configuration (\<^verbatim>\<open>best_config is None\<close>), or a result.\<close>

definition scenario_3_multidimensional_optimization ::
  "(scheduler \<Rightarrow> (error + 'r option) \<times> scheduler) \<Rightarrow> scheduler
     \<Rightarrow> (error + 'r option) \<times> (string \<times> int) list \<times> (string \<times> int) list" where
  "scenario_3_multidimensional_optimization phases s =
     (let original_team = original_team_capacity s;
          original_quality = original_quality_capacity s
      in case phases s of
           (Inl e, s1) \<Rightarrow> (Inl e, team_capacity s1, quality_team_capacity s1)
         | (Inr None, s1) \<Rightarrow>
             (Inr None, restore_capacities (team_capacity s1) original_team,
              restore_capacities (quality_team_capacity s1) original_quality)
         | (Inr (Some r), s1) \<Rightarrow>
             (Inr (Some r), restore_capacities (team_capacity s1) original_team,
              restore_capacities (quality_team_capacity s1) original_quality))"

section \<open>Example data\<close>

definition demo_task :: task_info where
  "demo_task = \<lparr> duration = 60, team = Some ''M1'', mechanics_required = 1,
                 is_quality = False, task_type = ''Production'' \<rparr>"

definition demo_placement :: placement where
  "demo_placement = \<lparr> start_time = 6120, end_time = 6180, s_team = Some ''M1'',
     s_product_line = ''P'', s_duration = 60, s_mechanics_required = 1,
     s_is_quality = False, s_task_type = ''Production'', s_shift = ''1st'' \<rparr>"

definition empty_scheduler :: scheduler where
  "empty_scheduler = \<lparr> late_part_delay_days = 1, tasks = [], quality_inspections = [],
     quality_requirements = [], precedence_constraints = [], late_part_constraints = [],
     rework_constraints = [], late_part_tasks = [], rework_tasks = [], on_dock_dates = [],
     team_shifts = [], team_capacity = [], quality_team_shifts = [],
     quality_team_capacity = [], holidays = [], product_tasks = [], task_schedule = [],
     original_team_capacity = [], original_quality_capacity = [] \<rparr>"

text \<open>A runtime for the examples: every task has priority 0 and a set is visited in the
  order of its elements given.\<close>

definition demo_runtime :: runtime where
  "demo_runtime = \<lparr> calculate_task_priority = (\<lambda>t. 0), set_iteration_order = (\<lambda>xs. xs) \<rparr>"

definition short_task :: task_info where
  "short_task = \<lparr> duration = 2, team = Some ''M1'', mechanics_required = 1,
                  is_quality = False, task_type = ''Production'' \<rparr>"

text \<open>A single production task of 600 minutes on a team that works the first shift with one
  mechanic; \<open>overlong_run\<close> is the scheduler after the task has been placed on Friday
  2025-08-22 from 06:00 to 16:00.\<close>

definition overlong_placement :: placement where
  "overlong_placement = \<lparr> start_time = 6120, end_time = 6720, s_team = Some ''M1'',
     s_product_line = ''P'', s_duration = 600, s_mechanics_required = 1,
     s_is_quality = False, s_task_type = ''Production'', s_shift = ''1st'' \<rparr>"

definition overlong_input :: scheduler where
  "overlong_input = empty_scheduler \<lparr>
     tasks := [(1, demo_task \<lparr> duration := 600 \<rparr>)],
     team_shifts := [(''M1'', [''1st''])], team_capacity := [(''M1'', 1)],
     product_tasks := [(''P'', [1])] \<rparr>"

definition overlong_run :: scheduler where
  "overlong_run = overlong_input \<lparr> task_schedule := [(1, overlong_placement)] \<rparr>"

text \<open>Three independent two-minute tasks compete for the two mechanics of one team.\<close>

definition capacity_demo :: scheduler where
  "capacity_demo = empty_scheduler \<lparr>
     tasks := [(1, short_task), (2, short_task), (3, short_task)],
     team_shifts := [(''M1'', [''1st''])], team_capacity := [(''M1'', 2)],
     product_tasks := [(''P'', [1, 2, 3])] \<rparr>"

definition capacity_demo_run :: scheduler where
  "capacity_demo_run = capacity_demo \<lparr> task_schedule :=
     [(1, placement_entry short_task ''P'' (6120, Some ''M1'', ''1st'')),
      (2, placement_entry short_task ''P'' (6120, Some ''M1'', ''1st'')),
      (3, placement_entry short_task ''P'' (6122, Some ''M1'', ''1st''))] \<rparr>"



text \<open>A late part 301 that arrives on dock on Monday 2025-08-25 at 00:00 and must finish before
  task 2; the delay is half a day.\<close>

definition late_part_demo :: scheduler where
  "late_part_demo = empty_scheduler \<lparr>
     late_part_delay_days := 1 / 2,
     tasks := [(301, short_task \<lparr> task_type := ''Late Part'' \<rparr>), (2, short_task)],
     late_part_constraints := [\<lparr> lp_First = 301, lp_Second = 2, lp_On_Dock_Date = 10080,
                                 lp_Product_Line = Some ''P'' \<rparr>],
     late_part_tasks := [301],
     on_dock_dates := [(301, 10080)],
     team_shifts := [(''M1'', [''1st''])], team_capacity := [(''M1'', 2)],
     product_tasks := [(''P'', [2, 301])] \<rparr>"

definition late_part_demo_run :: scheduler where
  "late_part_demo_run = late_part_demo \<lparr> task_schedule :=
     [(301, placement_entry (short_task \<lparr> task_type := ''Late Part'' \<rparr>) ''P''
              (10440, Some ''M1'', ''1st'')),
      (2, placement_entry short_task ''P'' (10442, Some ''M1'', ''1st''))] \<rparr>"

text \<open>The same bundle with the default delay of one day.\<close>

definition late_part_default :: scheduler where
  "late_part_default = late_part_demo \<lparr> late_part_delay_days := 1 \<rparr>"

definition late_part_default_run :: scheduler where
  "late_part_default_run = late_part_default \<lparr> task_schedule :=
     [(301, placement_entry (short_task \<lparr> task_type := ''Late Part'' \<rparr>) ''P''
              (11880, Some ''M1'', ''1st'')),
      (2, placement_entry short_task ''P'' (11882, Some ''M1'', ''1st''))] \<rparr>"



text \<open>The bundle of the capacity example with one quality team, and the capacities recorded
  at load time.\<close>

definition scenario_demo :: scheduler where
  "scenario_demo = capacity_demo \<lparr>
     quality_team_shifts := [(''Q1'', [''1st''])],
     quality_team_capacity := [(''Q1'', 1)],
     original_team_capacity := [(''M1'', 2)],
     original_quality_capacity := [(''Q1'', 1)] \<rparr>"

text \<open>The same bundle with a precedence row from task 1 to a task 9 that belongs to the
  product but was never loaded.\<close>

definition dangling_demo :: scheduler where
  "dangling_demo = scenario_demo \<lparr>
     precedence_constraints :=
       [\<lparr> rc_First = 1, rc_Second = 9, rc_Relationship_Type = Some ''Finish <= Start'',
          rc_Relationship = None \<rparr>],
     product_tasks := [(''P'', [1, 2, 3, 9])] \<rparr>"

section \<open>Invariant of the main loop\<close>

subsection \<open>Heap and dictionary facts\<close>

lemma smallest_entry_mem: "smallest_entry best xs \<in> set (best # xs)"
  by (induction xs arbitrary: best) auto

lemma heappop_mem:
  "heap \<noteq> [] \<Longrightarrow> heappop heap = (m, rest) \<Longrightarrow> m \<in> set heap \<and> rest = remove1 m heap"
  using smallest_entry_mem [of "hd heap" "tl heap"]
  by (cases heap) (auto simp: heappop_def Let_def)

lemma distinct_snd_remove1:
  "distinct (map snd xs) \<Longrightarrow> m \<in> set xs \<Longrightarrow>
   distinct (map snd (remove1 m xs)) \<and> snd m \<notin> snd ` set (remove1 m xs)"
proof (induction xs)
  case Nil
  then show ?case by simp
next
  case (Cons x xs)
  show ?case
  proof (cases "x = m")
    case True
    with Cons.prems show ?thesis by auto
  next
    case False
    with Cons.prems have "m \<in> set xs" "distinct (map snd xs)" by auto
    from Cons.IH [OF this(2,1)] Cons.prems False show ?thesis
      by (auto simp: image_iff dest: notin_set_remove1)
  qed
qed

lemma dict_set_fresh: "k \<notin> fst ` set d \<Longrightarrow> dict_set d k v = d @ [(k, v)]"
  by (induction d) auto

lemma foldl_heappush: "foldl heappush heap xs = heap @ xs"
  by (induction xs arbitrary: heap) (auto simp: heappush_def)

lemma ready_tasks_push_tasks:
  "ready_tasks (push_tasks rt st ts)
     = ready_tasks st @ map (\<lambda>task. (calculate_task_priority rt task, task)) ts"
  by (simp add: push_tasks_def foldl_heappush)

lemma push_tasks_other [simp]:
  "self (push_tasks rt st ts) = self st"
  "failed_tasks (push_tasks rt st ts) = failed_tasks st"
  "scheduled_count (push_tasks rt st ts) = scheduled_count st"
  "task_retry_counts (push_tasks rt st ts) = task_retry_counts st"
  "retry_count (push_tasks rt st ts) = retry_count st"
  by (simp_all add: push_tasks_def)

lemma dependents_dependencies:
  "d \<in> set (dependents dc t) \<longleftrightarrow> t \<in> set (dependencies dc d)"
  by (auto simp: dependents_def dependencies_def)

subsection \<open>The invariant\<close>

text \<open>
  \<open>placed_by\<close> records how an entry of the schedule came about: the slot search ran for
  the task against the schedule of that moment and returned the slot stored.  \<open>trace_ok\<close>
  says that the schedule is the list of its placements in the order they were made: every
  entry was placed against the entries before it, at a moment when each of its
  dependencies was placed or had failed.  \<open>waiting\<close> is what holds of a task on the ready
  heap.
\<close>

definition placed_by :: "runtime \<Rightarrow> constraint list \<Rightarrow> scheduler \<Rightarrow> task_id \<Rightarrow> placement \<Rightarrow> bool" where
  "placed_by rt dc s t e =
     (\<exists>info pl slot. map_of (tasks s) t = Some info
        \<and> find_product_line s t = Some pl \<and> pl \<noteq> []
        \<and> find_slot s (find_earliest_start rt dc s t) pl info = Some slot
        \<and> e = placement_entry info pl slot)"

definition waiting :: "constraint list \<Rightarrow> loop_state \<Rightarrow> task_id \<Rightarrow> bool" where
  "waiting dc st t =
     (\<not> in_schedule (self st) t \<and> t \<notin> set (failed_tasks st)
      \<and> (\<forall>d \<in> set (dependencies dc t). is_done st d))"

definition trace_ok ::
  "runtime \<Rightarrow> constraint list \<Rightarrow> scheduler \<Rightarrow> task_id list \<Rightarrow> (task_id \<times> placement) list \<Rightarrow> bool" where
  "trace_ok rt dc s0 failed sched =
     (distinct (map fst sched)
      \<and> (\<forall>i < length sched.
            placed_by rt dc (s0 \<lparr> task_schedule := take i sched \<rparr>) (fst (sched ! i)) (snd (sched ! i))
            \<and> (\<forall>d \<in> set (dependencies dc (fst (sched ! i))).
                  d \<in> set (map fst (take i sched)) \<or> d \<in> set failed)))"

definition loop_invariant :: "runtime \<Rightarrow> constraint list \<Rightarrow> scheduler \<Rightarrow> loop_state \<Rightarrow> bool" where
  "loop_invariant rt dc s0 st =
     (self st = s0 \<lparr> task_schedule := task_schedule (self st) \<rparr>
      \<and> (\<forall>x \<in> set (ready_tasks st). waiting dc st (snd x))
      \<and> distinct (map snd (ready_tasks st))
      \<and> (\<forall>t \<in> set (failed_tasks st). \<not> in_schedule (self st) t)
      \<and> trace_ok rt dc s0 (failed_tasks st) (task_schedule (self st)))"

lemma waiting_iteration_count [simp]:
  "waiting dc (st \<lparr> iteration_count := n \<rparr>) = waiting dc st"
  by (rule ext) (simp add: waiting_def is_done_def)

lemma waiting_ready_tasks [simp]:
  "waiting dc (st \<lparr> ready_tasks := r \<rparr>) = waiting dc st"
  by (rule ext) (simp add: waiting_def is_done_def)

lemma waiting_task_retry_counts [simp]:
  "waiting dc (st \<lparr> task_retry_counts := c \<rparr>) = waiting dc st"
  by (rule ext) (simp add: waiting_def is_done_def)

lemma schedule_loop_stop:
  "\<not> ((ready_tasks st \<noteq> [] \<or> scheduled_count st < length all_tasks)
         \<and> retry_count st < max_retries
         \<and> iteration_count st < length all_tasks * 10)
   \<Longrightarrow> schedule_loop rt dc silent_mode all_tasks st = Inr st"
  by (subst schedule_loop.simps) auto

lemma schedule_loop_step:
  "(ready_tasks st \<noteq> [] \<or> scheduled_count st < length all_tasks)
         \<and> retry_count st < max_retries
         \<and> iteration_count st < length all_tasks * 10
   \<Longrightarrow> schedule_loop rt dc silent_mode all_tasks st =
        (case loop_body rt dc silent_mode all_tasks st of
           Continue st' \<Rightarrow> schedule_loop rt dc silent_mode all_tasks st'
         | Break st' \<Rightarrow> Inr st'
         | Raise e \<Rightarrow> Inl e)"
  by (subst schedule_loop.simps) simp

lemma self_update:
  assumes "self st = s0 \<lparr> task_schedule := task_schedule (self st) \<rparr>"
  shows "(self st) \<lparr> task_schedule := X \<rparr> = s0 \<lparr> task_schedule := X \<rparr>"
proof -
  have "(self st) \<lparr> task_schedule := X \<rparr>
          = (s0 \<lparr> task_schedule := task_schedule (self st) \<rparr>) \<lparr> task_schedule := X \<rparr>"
    using assms by (rule arg_cong [where f = "\<lambda>s. s \<lparr> task_schedule := X \<rparr>"])
  then show ?thesis by simp
qed

lemma waiting_push_tasks [simp]:
  "waiting dc (push_tasks rt st ts) = waiting dc st"
  by (rule ext) (simp add: waiting_def is_done_def)

lemma loop_invariant_iteration_count [simp]:
  "loop_invariant rt dc s0 (st \<lparr> iteration_count := n \<rparr>) = loop_invariant rt dc s0 st"
  by (simp add: loop_invariant_def)

lemma loop_invariant_reseed:
  assumes inv: "loop_invariant rt dc s0 st" and empty: "ready_tasks st = []"
    and dist: "distinct all_tasks"
  shows "loop_invariant rt dc s0 (push_tasks rt st (find_newly_ready dc all_tasks st))"
proof -
  let ?new = "find_newly_ready dc all_tasks st"
  have d: "distinct ?new" using dist by (simp add: find_newly_ready_def Let_def)
  have new: "waiting dc st t" if "t \<in> set ?new" for t
    using that by (auto simp: waiting_def find_newly_ready_def Let_def filter_empty_conv)
  show ?thesis
    using inv d new unfolding loop_invariant_def
    by (auto simp: ready_tasks_push_tasks empty distinct_map comp_def inj_on_def)
qed

definition popped :: "runtime \<Rightarrow> constraint list \<Rightarrow> scheduler \<Rightarrow> loop_state \<Rightarrow> task_id \<Rightarrow> bool" where
  "popped rt dc s0 st t =
     (loop_invariant rt dc s0 st \<and> waiting dc st t \<and> t \<notin> snd ` set (ready_tasks st))"

lemma loop_invariant_pop:
  assumes inv: "loop_invariant rt dc s0 st" and ne: "ready_tasks st \<noteq> []"
    and pop: "heappop (ready_tasks st) = ((p, t), rest)"
  shows "popped rt dc s0 (st \<lparr> ready_tasks := rest \<rparr>) t"
proof -
  from heappop_mem [OF ne pop] have m: "(p, t) \<in> set (ready_tasks st)"
    and rest: "rest = remove1 (p, t) (ready_tasks st)" by auto
  have dist: "distinct (map snd (ready_tasks st))"
    using inv by (simp add: loop_invariant_def)
  from distinct_snd_remove1 [OF dist m] rest
  have d': "distinct (map snd rest)" and notin: "t \<notin> snd ` set rest" by auto
  have sub: "set rest \<subseteq> set (ready_tasks st)"
    using rest set_remove1_subset by fast
  have "\<forall>x \<in> set rest. waiting dc st (snd x)"
    using inv sub unfolding loop_invariant_def by blast
  then have "loop_invariant rt dc s0 (st \<lparr> ready_tasks := rest \<rparr>)"
    using inv d' unfolding loop_invariant_def by simp
  moreover have "waiting dc st t"
    using inv m unfolding loop_invariant_def by force
  ultimately show ?thesis
    using notin unfolding popped_def by simp
qed

lemma is_done_mono_failed:
  "is_done st d \<Longrightarrow> is_done (st \<lparr> failed_tasks := List.insert t (failed_tasks st) \<rparr>) d"
  by (auto simp: is_done_def)

lemma trace_ok_mono_failed:
  "trace_ok rt dc s0 failed sched \<Longrightarrow> set failed \<subseteq> set failed' \<Longrightarrow> trace_ok rt dc s0 failed' sched"
  unfolding trace_ok_def by blast

lemma loop_invariant_give_up:
  assumes "popped rt dc s0 st t"
  shows "loop_invariant rt dc s0 (st \<lparr> failed_tasks := List.insert t (failed_tasks st) \<rparr>)"
proof -
  let ?st = "st \<lparr> failed_tasks := List.insert t (failed_tasks st) \<rparr>"
  from assms have inv: "loop_invariant rt dc s0 st" and w: "waiting dc st t"
    and notin: "t \<notin> snd ` set (ready_tasks st)"
    by (auto simp: popped_def)
  have "waiting dc ?st (snd x)" if "x \<in> set (ready_tasks st)" for x
  proof -
    from that inv have "waiting dc st (snd x)" by (auto simp: loop_invariant_def)
    moreover from that notin have "snd x \<noteq> t" by auto
    ultimately show ?thesis
      using is_done_mono_failed [of st _ t] by (auto simp: waiting_def)
  qed
  moreover have "\<forall>u \<in> set (failed_tasks ?st). \<not> in_schedule (self ?st) u"
    using inv w by (auto simp: loop_invariant_def waiting_def)
  moreover have "trace_ok rt dc s0 (failed_tasks ?st) (task_schedule (self ?st))"
    using inv trace_ok_mono_failed [of rt dc s0 "failed_tasks st" _ "List.insert t (failed_tasks st)"]
    by (auto simp: loop_invariant_def)
  ultimately show ?thesis
    using inv by (simp add: loop_invariant_def)
qed


lemma loop_invariant_retry:
  assumes "popped rt dc s0 st t"
  shows "loop_invariant rt dc s0 (retry_task st priority t)"
proof -
  let ?st1 = "st \<lparr> task_retry_counts := (task_retry_counts st) (t := task_retry_counts st t + 1) \<rparr>"
  have pop1: "popped rt dc s0 ?st1 t"
    using assms by (simp add: popped_def loop_invariant_def)
  show ?thesis
  proof (cases "task_retry_counts st t + 1 < 3")
    case False
    then have "retry_task st priority t
                 = ?st1 \<lparr> failed_tasks := List.insert t (failed_tasks ?st1) \<rparr>"
      by (simp add: retry_task_def Let_def)
    with loop_invariant_give_up [OF pop1] show ?thesis by simp
  next
    case True
    then have eq: "retry_task st priority t
          = ?st1 \<lparr> ready_tasks := ready_tasks st @ [(priority + 1 / 10, t)] \<rparr>"
      by (simp add: retry_task_def Let_def heappush_def)
    from pop1 have inv: "loop_invariant rt dc s0 ?st1" and wt: "waiting dc st t"
      and notin: "t \<notin> snd ` set (ready_tasks st)"
      by (auto simp: popped_def)
    show ?thesis
      unfolding eq using inv wt notin
      by (auto simp: loop_invariant_def)
  qed
qed

lemma placed_by_cong:
  "placed_by rt dc s t e \<Longrightarrow> s = s' \<Longrightarrow> placed_by rt dc s' t e"
  by simp

lemma loop_invariant_place:
  assumes pop: "popped rt dc s0 st t"
    and info: "map_of (tasks (self st)) t = Some info"
    and pl: "find_product_line (self st) t = Some product_line" "product_line \<noteq> []"
    and slot: "find_slot (self st) (find_earliest_start rt dc (self st) t) product_line info
                 = Some slot"
  shows "loop_invariant rt dc s0 (record_placement rt dc st t info product_line slot)"
proof -
  let ?sched = "task_schedule (self st)"
  define e where "e = placement_entry info product_line slot"
  define st1 where "st1 = st \<lparr> self := (self st) \<lparr> task_schedule := ?sched @ [(t, e)] \<rparr>,
                   scheduled_count := scheduled_count st + 1, retry_count := 0 \<rparr>"
  define new where "new = ready_dependents dc st1 t"
  define st2 where "st2 = push_tasks rt st1 new"
  from pop have inv: "loop_invariant rt dc s0 st" and wt: "waiting dc st t"
    and notin: "t \<notin> snd ` set (ready_tasks st)"
    by (auto simp: popped_def)
  have fresh: "t \<notin> fst ` set ?sched"
    using wt by (simp add: waiting_def in_schedule_def)
  have eq: "record_placement rt dc st t info product_line slot = st2"
    unfolding st2_def new_def st1_def e_def
    by (simp add: record_placement_def Let_def dict_set_fresh [OF fresh])
  have self0: "self st = s0 \<lparr> task_schedule := ?sched \<rparr>"
    using inv by (simp add: loop_invariant_def)
  have sched2: "task_schedule (self st2) = ?sched @ [(t, e)]"
    and failed2: "failed_tasks st2 = failed_tasks st"
    and ready2: "ready_tasks st2
          = ready_tasks st @ map (\<lambda>task. (calculate_task_priority rt task, task)) new"
    by (simp_all add: st2_def st1_def ready_tasks_push_tasks)
  have self2: "self st2 = s0 \<lparr> task_schedule := task_schedule (self st2) \<rparr>"
    unfolding sched2 by (simp add: st2_def st1_def self_update [OF self0])
  have in2: "in_schedule (self st2) d \<longleftrightarrow> in_schedule (self st) d \<or> d = t" for d
    by (auto simp: in_schedule_def sched2)
  have done2: "is_done st2 d \<longleftrightarrow> is_done st d \<or> d = t" for d
    by (auto simp: is_done_def in2 failed2)
  have w2: "waiting dc st d \<Longrightarrow> d \<noteq> t \<Longrightarrow> waiting dc st2 d" for d
    by (auto simp: waiting_def in2 done2 failed2)
  have done1: "is_done st1 = is_done st2"
    by (rule ext) (simp add: is_done_def st2_def)
  \<comment> \<open>the entries already on the heap\<close>
  have old: "waiting dc st2 (snd x)" if "x \<in> set (ready_tasks st)" for x
  proof -
    from that inv have w: "waiting dc st (snd x)" by (auto simp: loop_invariant_def)
    from that notin have "snd x \<noteq> t" by auto
    with w show ?thesis by (rule w2)
  qed
  \<comment> \<open>the dependents pushed\<close>
  have new_w: "waiting dc st2 d" if "d \<in> set new" for d
    using that unfolding new_def ready_dependents_def done1
    by (auto simp: waiting_def is_done_def list_all_iff)
  have new_not_old: "d \<notin> snd ` set (ready_tasks st)" if "d \<in> set new" for d
  proof
    assume "d \<in> snd ` set (ready_tasks st)"
    then obtain x where x: "x \<in> set (ready_tasks st)" "snd x = d" by auto
    with inv have "waiting dc st d" by (auto simp: loop_invariant_def)
    moreover from that have "t \<in> set (dependencies dc d)"
      by (simp add: new_def ready_dependents_def dependents_dependencies)
    ultimately have "is_done st t" by (simp add: waiting_def)
    with wt show False by (simp add: waiting_def is_done_def)
  qed
  have dist_new: "distinct new"
    by (simp add: new_def ready_dependents_def dependents_def)
  have heap2: "\<forall>x \<in> set (ready_tasks st2). waiting dc st2 (snd x)"
    unfolding ready2 using old new_w by auto
  have dist2: "distinct (map snd (ready_tasks st2))"
    unfolding ready2 using inv dist_new new_not_old
    by (auto simp: loop_invariant_def distinct_map comp_def inj_on_def)
  \<comment> \<open>the failed tasks\<close>
  have fail2: "\<forall>u \<in> set (failed_tasks st2). \<not> in_schedule (self st2) u"
    unfolding failed2 in2 using inv wt by (auto simp: loop_invariant_def waiting_def)
  \<comment> \<open>the trace\<close>
  have tr: "trace_ok rt dc s0 (failed_tasks st) ?sched"
    using inv by (simp add: loop_invariant_def)
  have pb: "placed_by rt dc (s0 \<lparr> task_schedule := ?sched \<rparr>) t e"
    unfolding placed_by_def self0 [symmetric] e_def
    using info pl slot by blast
  have deps_t: "\<forall>d \<in> set (dependencies dc t). d \<in> set (map fst ?sched) \<or> d \<in> set (failed_tasks st)"
    using wt by (auto simp: waiting_def is_done_def in_schedule_def)
  have tr2: "trace_ok rt dc s0 (failed_tasks st2) (task_schedule (self st2))"
    unfolding trace_ok_def sched2 failed2
  proof (intro conjI allI impI)
    show "distinct (map fst (?sched @ [(t, e)]))"
      using tr fresh by (simp add: trace_ok_def)
  next
    fix i assume i: "i < length (?sched @ [(t, e)])"
    show "placed_by rt dc (s0 \<lparr> task_schedule := take i (?sched @ [(t, e)]) \<rparr>)
            (fst ((?sched @ [(t, e)]) ! i)) (snd ((?sched @ [(t, e)]) ! i))"
    proof (cases "i < length ?sched")
      case True
      then show ?thesis using tr by (simp add: trace_ok_def nth_append)
    next
      case False
      with i have "i = length ?sched" by simp
      then show ?thesis using pb by simp
    qed
    show "\<forall>d \<in> set (dependencies dc (fst ((?sched @ [(t, e)]) ! i))).
            d \<in> set (map fst (take i (?sched @ [(t, e)]))) \<or> d \<in> set (failed_tasks st)"
    proof (cases "i < length ?sched")
      case True
      then show ?thesis using tr by (simp add: trace_ok_def nth_append)
    next
      case False
      with i have "i = length ?sched" by simp
      then show ?thesis using deps_t by simp
    qed
  qed
  show ?thesis
    unfolding eq loop_invariant_def
    using self2 heap2 dist2 fail2 tr2 by blast
qed

lemma loop_invariant_process_task:
  assumes "popped rt dc s0 st t"
    and "process_task rt dc st priority t = Continue st' \<or> process_task rt dc st priority t = Break st'"
  shows "loop_invariant rt dc s0 st'"
  using assms loop_invariant_give_up [of rt dc s0 st t] loop_invariant_retry [of rt dc s0 st t priority]
    loop_invariant_place [of rt dc s0 st t]
  by (auto simp: process_task_def popped_def split: if_splits option.splits)

lemma loop_invariant_pop_and_process:
  assumes "loop_invariant rt dc s0 st"
    and "pop_and_process rt dc st = Continue st' \<or> pop_and_process rt dc st = Break st'"
  shows "loop_invariant rt dc s0 st'"
proof (cases "ready_tasks st = []")
  case True
  with assms show ?thesis by (auto simp: pop_and_process_def)
next
  case False
  obtain p t rest where pop: "heappop (ready_tasks st) = ((p, t), rest)"
    by (metis prod.exhaust)
  from loop_invariant_pop [OF assms(1) False pop]
  have "popped rt dc s0 (st \<lparr> ready_tasks := rest \<rparr>) t" .
  moreover from assms(2) False pop
  have "process_task rt dc (st \<lparr> ready_tasks := rest \<rparr>) p t = Continue st'
      \<or> process_task rt dc (st \<lparr> ready_tasks := rest \<rparr>) p t = Break st'"
    by (simp add: pop_and_process_def)
  ultimately show ?thesis by (rule loop_invariant_process_task)
qed

lemma loop_invariant_loop_body:
  assumes "loop_invariant rt dc s0 st" and "distinct all_tasks"
    and "loop_body rt dc silent_mode all_tasks st = Continue st'
       \<or> loop_body rt dc silent_mode all_tasks st = Break st'"
  shows "loop_invariant rt dc s0 st'"
proof -
  let ?st1 = "st \<lparr> iteration_count := iteration_count st + 1 \<rparr>"
  have inv1: "loop_invariant rt dc s0 ?st1" using assms(1) by simp
  show ?thesis
  proof (cases "ready_tasks ?st1 = []
         \<and> scheduled_count ?st1 + length (failed_tasks ?st1) < length all_tasks")
    case False
    with assms(3) have "pop_and_process rt dc ?st1 = Continue st'
       \<or> pop_and_process rt dc ?st1 = Break st'"
      by (auto simp: loop_body_def Let_def)
    with inv1 show ?thesis by (rule loop_invariant_pop_and_process)
  next
    case True
    let ?st2 = "push_tasks rt ?st1 (find_newly_ready dc all_tasks ?st1)"
    from True have "ready_tasks ?st1 = []" by simp
    from loop_invariant_reseed [OF inv1 this assms(2)]
    have inv2: "loop_invariant rt dc s0 ?st2" .
    from True assms(3) have "st' = ?st2 \<or> pop_and_process rt dc ?st2 = Continue st'
       \<or> pop_and_process rt dc ?st2 = Break st'"
      by (auto simp: loop_body_def Let_def split: if_splits)
    with inv2 loop_invariant_pop_and_process [OF inv2] show ?thesis by auto
  qed
qed

lemma loop_invariant_schedule_loop:
  "loop_invariant rt dc s0 st \<Longrightarrow> distinct all_tasks \<Longrightarrow>
   schedule_loop rt dc silent_mode all_tasks st = Inr st' \<Longrightarrow> loop_invariant rt dc s0 st'"
proof (induction rt dc silent_mode all_tasks st rule: schedule_loop.induct)
  case (1 rt dc silent_mode all_tasks st)
  show ?case
  proof (cases "(ready_tasks st \<noteq> [] \<or> scheduled_count st < length all_tasks)
         \<and> retry_count st < max_retries
         \<and> iteration_count st < length all_tasks * 10")
    case False
    from schedule_loop_stop [OF False] "1.prems" show ?thesis by simp
  next
    case True
    note step = schedule_loop_step [OF True, of rt dc silent_mode]
    show ?thesis
    proof (cases "loop_body rt dc silent_mode all_tasks st")
      case (Continue st1)
      with step "1.prems"(3) have "schedule_loop rt dc silent_mode all_tasks st1 = Inr st'"
        by simp
      moreover have "loop_invariant rt dc s0 st1"
        using loop_invariant_loop_body [OF "1.prems"(1,2)] Continue by blast
      ultimately show ?thesis
        using "1.IH" [OF True Continue _ "1.prems"(2)] by blast
    next
      case (Break st1)
      with step "1.prems"(3) have "st' = st1"
        by simp
      then show ?thesis
        using loop_invariant_loop_body [OF "1.prems"(1,2)] Break by blast
    next
      case (Raise e)
      with step "1.prems"(3) show ?thesis
        by simp
    qed
  qed
qed


lemma loop_invariant_initial_state:
  assumes "task_schedule s0 = []" and "distinct all_tasks"
  shows "loop_invariant rt dc s0 (initial_state rt dc all_tasks s0)"
proof -
  have "s0 = s0 \<lparr> task_schedule := [] \<rparr>" using assms(1) by simp
  then show ?thesis
    using assms
    unfolding loop_invariant_def initial_state_def
    by (auto simp: ready_tasks_push_tasks waiting_def in_schedule_def is_done_def trace_ok_def
        distinct_map comp_def inj_on_def)
qed

lemma schedule_tasks_state_invariant:
  assumes "schedule_tasks_state rt s silent_mode = Inr st"
  shows "loop_invariant rt (build_dynamic_dependencies (s \<lparr> task_schedule := [] \<rparr>))
           (s \<lparr> task_schedule := [] \<rparr>) st"
proof -
  let ?s0 = "s \<lparr> task_schedule := [] \<rparr>"
  let ?dc = "build_dynamic_dependencies ?s0"
  have d: "distinct (all_task_ids ?s0)" by (simp add: all_task_ids_def)
  from assms have "schedule_loop rt ?dc silent_mode (all_task_ids ?s0)
                     (initial_state rt ?dc (all_task_ids ?s0) ?s0) = Inr st"
    by (simp add: schedule_tasks_state_def Let_def split: if_splits)
  moreover have "loop_invariant rt ?dc ?s0 (initial_state rt ?dc (all_task_ids ?s0) ?s0)"
    by (rule loop_invariant_initial_state) (simp_all add: d)
  ultimately show ?thesis
    using loop_invariant_schedule_loop d by blast
qed

section \<open>Properties of the window search\<close>

lemma replace_time_next_day_later: "t \<le> replace_time t 6 0 + 1440"
proof -
  have "t = date_of t * 1440 + t mod 1440" by (simp add: date_of_def)
  moreover have "t mod 1440 < 1440" by simp
  ultimately show ?thesis unfolding replace_time_def by linarith
qed

lemma next_shift_start_later: "t \<le> next_shift_start t"
proof -
  have t: "t = date_of t * 1440 + minutes_of_day t" by (simp add: date_of_def minutes_of_day_def)
  have "minutes_of_day t < 1440" by (simp add: minutes_of_day_def)
  with t show ?thesis
    unfolding next_shift_start_def Let_def replace_time_def by (auto split: if_splits)
qed


lemma next_working_time_loop_result:
  "fst (next_working_time_loop s current_time product_line team_opt n dur is_q iterations)
     = Inr (t, shift)
   \<Longrightarrow> current_time \<le> t
       \<and> is_working_day s t product_line
       \<and> find_available_shift s team_opt is_q (minutes_of_day t) = Some shift
       \<and> check_team_capacity_at_time s team_opt t (t + dur) n"
proof (induction s current_time product_line team_opt n dur is_q iterations
       rule: next_working_time_loop.induct)
  case (1 s current_time product_line team_opt n dur is_q iterations)
  from "1.prems" have it: "iterations < max_search_iterations"
    by (subst (asm) next_working_time_loop.simps) (auto split: if_splits)
  show ?case
  proof (cases "is_working_day s current_time product_line")
    case False
    with it "1.prems" have
      "fst (next_working_time_loop s (replace_time current_time 6 0 + 1440) product_line team_opt
         n dur is_q (iterations + 1)) = Inr (t, shift)"
      by (subst (asm) next_working_time_loop.simps) simp
    from "1.IH"(1) [OF it False this] replace_time_next_day_later [of current_time]
    show ?thesis by simp
  next
    case True
    show ?thesis
    proof (cases "find_available_shift s team_opt is_q (minutes_of_day current_time)")
      case None
      with it True "1.prems" have
        "fst (next_working_time_loop s (next_shift_start current_time) product_line team_opt
           n dur is_q (iterations + 1)) = Inr (t, shift)"
        by (subst (asm) next_working_time_loop.simps) simp
      from "1.IH"(2) [OF it _ None this] True next_shift_start_later [of current_time]
      show ?thesis by simp
    next
      case (Some available_shift)
      show ?thesis
      proof (cases "check_team_capacity_at_time s team_opt current_time (current_time + dur) n")
        case fits: True
        with it True Some "1.prems" have "t = current_time" "shift = available_shift"
          by (subst (asm) next_working_time_loop.simps, simp)+
        with True Some fits show ?thesis by simp
      next
        case full: False
        with it True Some "1.prems" have
          "fst (next_working_time_loop s (current_time + 1) product_line team_opt
             n dur is_q (iterations + 1)) = Inr (t, shift)"
          by (subst (asm) next_working_time_loop.simps) simp
        from "1.IH"(3) [OF it _ Some full this] True
        show ?thesis by simp
      qed
    qed
  qed
qed



lemma get_next_working_time_with_capacity_result:
  "get_next_working_time_with_capacity s current_time product_line team_opt n dur is_q
     = Inr (t, shift)
   \<Longrightarrow> current_time \<le> t
       \<and> is_working_day s t product_line
       \<and> find_available_shift s team_opt is_q (minutes_of_day t) = Some shift
       \<and> check_team_capacity_at_time s team_opt t (t + dur) n"
  unfolding get_next_working_time_with_capacity_def by (rule next_working_time_loop_result)


lemma try_quality_shifts_result:
  "try_quality_shifts s es pl mn dur shifts best = Some (start, team_name, shift)
   \<Longrightarrow> best = Some (start, team_name, shift)
       \<or> (shift \<in> set shifts \<and> team_name \<noteq> []
          \<and> assign_quality_team_balanced s shift mn = Some team_name
          \<and> (\<exists>returned. get_next_working_time_with_capacity s es pl (Some team_name) mn dur True
                 = Inr (start, returned)))"
proof (induction shifts arbitrary: best)
  case Nil
  then show ?case by simp
next
  case (Cons try_shift rest)
  show ?case
  proof (cases "assign_quality_team_balanced s try_shift mn")
    case None
    with Cons.prems have "try_quality_shifts s es pl mn dur rest best = Some (start, team_name, shift)"
      by simp
    from Cons.IH [OF this] show ?thesis by auto
  next
    case (Some temp_team)
    show ?thesis
    proof (cases "temp_team = []")
      case True
      with Some Cons.prems have "try_quality_shifts s es pl mn dur rest best = Some (start, team_name, shift)"
        by simp
      from Cons.IH [OF this] show ?thesis by auto
    next
      case False
      show ?thesis
      proof (cases "get_next_working_time_with_capacity s es pl (Some temp_team) mn dur True")
        case (Inl e)
        with Some False Cons.prems
        have "try_quality_shifts s es pl mn dur rest best = Some (start, team_name, shift)"
          by simp
        from Cons.IH [OF this] show ?thesis by auto
      next
        case (Inr r)
        obtain temp_start returned where r: "r = (temp_start, returned)" by (cases r) auto
        let ?cand = "Some (temp_start, temp_team, try_shift)"
        have "try_quality_shifts s es pl mn dur rest best = Some (start, team_name, shift)
            \<or> try_quality_shifts s es pl mn dur rest ?cand = Some (start, team_name, shift)"
          using Some False Inr r Cons.prems
          by (auto split: option.splits if_splits)
        then show ?thesis
        proof
          assume "try_quality_shifts s es pl mn dur rest best = Some (start, team_name, shift)"
          from Cons.IH [OF this] show ?thesis by auto
        next
          assume "try_quality_shifts s es pl mn dur rest ?cand = Some (start, team_name, shift)"
          from Cons.IH [OF this] Some False Inr r show ?thesis by auto
        qed
      qed
    qed
  qed
qed

text \<open>What holds of the slot that \<open>find_slot\<close> returns.\<close>

lemma find_slot_result:
  assumes "find_slot s es pl info = Some (start, team_opt, shift)"
  shows "es \<le> start
       \<and> is_working_day s start pl
       \<and> check_team_capacity_at_time s team_opt start (start + duration info)
            (mechanics_required info)
       \<and> (if is_quality info
          then \<exists>team_name returned. team_opt = Some team_name \<and> team_name \<noteq> []
                 \<and> shift \<in> set [''1st'', ''2nd'', ''3rd'']
                 \<and> assign_quality_team_balanced s shift (mechanics_required info) = Some team_name
                 \<and> find_available_shift s team_opt True (minutes_of_day start) = Some returned
          else team_opt = team info
                 \<and> find_available_shift s team_opt False (minutes_of_day start) = Some shift)"
proof (cases "is_quality info")
  case False
  with assms have "get_next_working_time_with_capacity s es pl (team info)
      (mechanics_required info) (duration info) False = Inr (start, shift)"
    and "team_opt = team info"
    by (auto simp: find_slot_def split: sum.splits)
  with get_next_working_time_with_capacity_result [OF this(1)] False show ?thesis by simp
next
  case True
  with assms obtain team_name where tn: "team_opt = Some team_name"
    and "try_quality_shifts s es pl (mechanics_required info) (duration info)
           [''1st'', ''2nd'', ''3rd''] None = Some (start, team_name, shift)"
    by (auto simp: find_slot_def split: option.splits)
  from try_quality_shifts_result [OF this(2)]
  obtain returned where r: "shift \<in> set [''1st'', ''2nd'', ''3rd'']" "team_name \<noteq> []"
    "assign_quality_team_balanced s shift (mechanics_required info) = Some team_name"
    "get_next_working_time_with_capacity s es pl (Some team_name) (mechanics_required info)
       (duration info) True = Inr (start, returned)"
    by auto
  from get_next_working_time_with_capacity_result [OF r(4)] r(1,2,3) tn True
  show ?thesis by auto
qed

lemma find_available_shift_Some:
  assumes "find_available_shift s team_opt is_q m = Some shift"
  shows "in_shift_window shift m
       \<and> (if is_q then any_quality_team_works s shift
          else \<exists>team_name. team_opt = Some team_name
                 \<and> shift \<in> set (dict_get (team_shifts s) team_name []))"
proof (cases is_q)
  case True
  with assms show ?thesis
    by (auto simp: find_available_shift_def split: if_splits)
next
  case False
  with assms show ?thesis
    by (cases team_opt) (auto simp: find_available_shift_def find_Some_iff)
qed

subsection \<open>Fields that the schedule does not touch\<close>

lemma static_builder_steps [simp]:
  "add_baseline_constraint (s \<lparr> task_schedule := x \<rparr>) = add_baseline_constraint s"
  "add_rework_constraint (s \<lparr> task_schedule := x \<rparr>) = add_rework_constraint s"
  by (auto simp: add_baseline_constraint_def add_rework_constraint_def fun_eq_iff Let_def
      split: option.split)

lemma static_task_schedule [simp]:
  "is_working_day (s \<lparr> task_schedule := x \<rparr>) = is_working_day s"
  "capacity_of (s \<lparr> task_schedule := x \<rparr>) = capacity_of s"
  "find_available_shift (s \<lparr> task_schedule := x \<rparr>) = find_available_shift s"
  "any_quality_team_works (s \<lparr> task_schedule := x \<rparr>) = any_quality_team_works s"
  "find_product_line (s \<lparr> task_schedule := x \<rparr>) = find_product_line s"
  "get_earliest_start_for_late_part (s \<lparr> task_schedule := x \<rparr>) = get_earliest_start_for_late_part s"
  "build_dynamic_dependencies (s \<lparr> task_schedule := x \<rparr>) = build_dynamic_dependencies s"
  by (auto simp: is_working_day_def capacity_of_def find_available_shift_def
      any_quality_team_works_def find_product_line_def get_earliest_start_for_late_part_def
      build_dynamic_dependencies_def baseline_constraints_def fun_eq_iff split: option.split)

section \<open>The schedule as a trace of placements\<close>


lemma schedule_tasks_trace:
  assumes "schedule_tasks rt s silent_mode = Inr s'"
  shows "\<exists>failed. s' = s \<lparr> task_schedule := task_schedule s' \<rparr>
           \<and> trace_ok rt (build_dynamic_dependencies s) (s \<lparr> task_schedule := [] \<rparr>) failed
                (task_schedule s')
           \<and> (\<forall>t \<in> set failed. \<not> in_schedule s' t)"
proof -
  from assms obtain st where st: "schedule_tasks_state rt s silent_mode = Inr st" "s' = self st"
    by (auto simp: schedule_tasks_def split: sum.splits)
  from schedule_tasks_state_invariant [OF st(1)]
  have inv: "loop_invariant rt (build_dynamic_dependencies s) (s \<lparr> task_schedule := [] \<rparr>) st"
    by simp
  then have "self st = s \<lparr> task_schedule := task_schedule (self st) \<rparr>"
    by (simp add: loop_invariant_def)
  with inv st(2) show ?thesis
    unfolding loop_invariant_def by blast
qed




lemma placement_entry_fields [simp]:
  "start_time (placement_entry info pl (start, team_opt, shift)) = start"
  "end_time (placement_entry info pl (start, team_opt, shift)) = start + duration info"
  "s_team (placement_entry info pl (start, team_opt, shift)) = team_opt"
  "s_product_line (placement_entry info pl (start, team_opt, shift)) = pl"
  "s_duration (placement_entry info pl (start, team_opt, shift)) = duration info"
  "s_mechanics_required (placement_entry info pl (start, team_opt, shift)) = mechanics_required info"
  "s_is_quality (placement_entry info pl (start, team_opt, shift)) = is_quality info"
  "s_task_type (placement_entry info pl (start, team_opt, shift)) = task_type info"
  "s_shift (placement_entry info pl (start, team_opt, shift)) = shift"
  by (simp_all add: placement_entry_def)

text \<open>The runs of the examples, evaluated once.\<close>

lemma capacity_demo_schedule:
  "schedule_tasks demo_runtime capacity_demo True = Inr capacity_demo_run"
  by code_simp

lemma overlong_schedule:
  "schedule_tasks demo_runtime overlong_input False = Inr overlong_run"
  by code_simp

section \<open>Team capacity\<close>





lemma min_by_load_mem: "min_by_load best xs \<in> set (best # xs)"
  by (induction xs arbitrary: best) auto

lemma assign_quality_team_balanced_works_shift:
  assumes "assign_quality_team_balanced s shift n = Some team_name"
  shows "\<exists>shifts. (team_name, shifts) \<in> set (quality_team_shifts s) \<and> shift \<in> set shifts"
proof -
  from assms obtain x xs where x: "team_loads s shift n = x # xs"
    "team_name = fst (min_by_load x xs)"
    by (auto simp: assign_quality_team_balanced_def split: if_splits list.splits)
  from min_by_load_mem [of x xs] x have "team_name \<in> fst ` set (team_loads s shift n)"
    by (metis imageI)
  then have "team_name \<in> set (available_teams s shift)"
    by (auto simp: team_loads_def)
  then show ?thesis
    by (auto simp: available_teams_def)
qed

lemma static_quality_team_shifts [simp]:
  "quality_team_shifts (s \<lparr> task_schedule := x \<rparr>) = quality_team_shifts s"
  by simp

text \<open>Every entry of the final schedule was placed against some earlier schedule.\<close>

lemma schedule_tasks_entry:
  assumes "schedule_tasks rt s silent_mode = Inr s'" and "(t, e) \<in> set (task_schedule s')"
  shows "\<exists>earlier. placed_by rt (build_dynamic_dependencies s) (s \<lparr> task_schedule := earlier \<rparr>) t e"
proof -
  from schedule_tasks_trace [OF assms(1)] obtain failed where
    tr: "trace_ok rt (build_dynamic_dependencies s) (s \<lparr> task_schedule := [] \<rparr>) failed
                (task_schedule s')"
    by blast
  from assms(2) obtain i where i: "i < length (task_schedule s')" "task_schedule s' ! i = (t, e)"
    by (auto simp: in_set_conv_nth)
  with tr have "placed_by rt (build_dynamic_dependencies s)
      (s \<lparr> task_schedule := [] \<rparr> \<lparr> task_schedule := take i (task_schedule s') \<rparr>) t e"
    by (auto simp: trace_ok_def)
  then show ?thesis by auto
qed

section \<open>Shift and working day of a placement\<close>

text \<open>
  Claim C1, as stated, says that the whole interval of a placed task lies within a single
  shift that its team works.  The 600-minute task of team \<open>M1\<close>, which works the first
  shift only, is placed from 06:00 to 16:00 on Friday: its first minute is in the first
  shift, its last minute (15:59) is in the second shift, which the team does not work.
  The window search tests the shift at the start instant only.
\<close>

theorem interval_within_one_shift_counterexample:
  "schedule_tasks demo_runtime overlong_input False = Inr overlong_run
   \<and> task_schedule overlong_run = [(1, overlong_placement)]
   \<and> dict_get (team_shifts overlong_input) ''M1'' [] = [''1st'']
   \<and> start_time overlong_placement = 6120 \<and> end_time overlong_placement = 6720
   \<and> in_shift_window ''1st'' (minutes_of_day 6120)
   \<and> \<not> in_shift_window ''1st'' (minutes_of_day 6719)
   \<and> in_shift_window ''2nd'' (minutes_of_day 6719)"
proof -
  have "task_schedule overlong_run = [(1, overlong_placement)]"
    "dict_get (team_shifts overlong_input) ''M1'' [] = [''1st'']"
    "start_time overlong_placement = 6120" "end_time overlong_placement = 6720"
    by (simp_all add: overlong_run_def overlong_input_def overlong_placement_def
        empty_scheduler_def dict_get_def)
  moreover have "in_shift_window ''1st'' (minutes_of_day 6120)"
    "\<not> in_shift_window ''1st'' (minutes_of_day 6719)"
    "in_shift_window ''2nd'' (minutes_of_day 6719)"
    by (simp_all add: in_shift_window_def minutes_of_day_def)
  ultimately show ?thesis using overlong_schedule by simp
qed

text \<open>
  Claim C1, amended: for every task placed by \<open>schedule_tasks\<close>, the start instant is on a
  working day of the task's product, the interval runs from the start for the task's
  duration, and the start instant lies in a shift window: for a mechanic task the window of
  the recorded shift, which the task's team works; for a quality task the window of a shift
  that some quality team works, while the recorded team works the recorded shift.  The end
  of the interval is not tested against the shift.
\<close>

theorem placed_start_in_worked_shift:
  assumes "schedule_tasks rt s silent_mode = Inr s'" and "(t, e) \<in> set (task_schedule s')"
  shows "find_product_line s t = Some (s_product_line e)
       \<and> is_working_day s (start_time e) (s_product_line e)
       \<and> end_time e = start_time e + s_duration e
       \<and> (if s_is_quality e
          then (\<exists>shift. in_shift_window shift (minutes_of_day (start_time e))
                       \<and> any_quality_team_works s shift)
             \<and> (\<exists>team_name shifts. s_team e = Some team_name
                   \<and> (team_name, shifts) \<in> set (quality_team_shifts s)
                   \<and> s_shift e \<in> set shifts)
          else in_shift_window (s_shift e) (minutes_of_day (start_time e))
             \<and> (\<exists>team_name. s_team e = Some team_name
                   \<and> s_shift e \<in> set (dict_get (team_shifts s) team_name [])))"
proof -
  from schedule_tasks_entry [OF assms] obtain earlier where
    "placed_by rt (build_dynamic_dependencies s) (s \<lparr> task_schedule := earlier \<rparr>) t e"
    by blast
  then obtain info pl slot where
    pl: "find_product_line s t = Some pl"
    and slot: "find_slot (s \<lparr> task_schedule := earlier \<rparr>)
             (find_earliest_start rt (build_dynamic_dependencies s)
                (s \<lparr> task_schedule := earlier \<rparr>) t) pl info = Some slot"
    and e: "e = placement_entry info pl slot"
    by (auto simp: placed_by_def)
  obtain start team_opt shift where sl: "slot = (start, team_opt, shift)" by (cases slot) auto
  note r = find_slot_result [OF slot [unfolded sl]]
  have common: "find_product_line s t = Some (s_product_line e)"
    "is_working_day s (start_time e) (s_product_line e)"
    "end_time e = start_time e + s_duration e"
    using pl r unfolding e sl by simp_all
  show ?thesis
  proof (cases "is_quality info")
    case False
    with r have "find_available_shift s team_opt False (minutes_of_day start) = Some shift"
      by auto
    from find_available_shift_Some [OF this] False common show ?thesis
      unfolding e sl by simp
  next
    case True
    with r obtain team_name returned where q: "team_opt = Some team_name"
      "assign_quality_team_balanced (s \<lparr> task_schedule := earlier \<rparr>) shift
         (mechanics_required info) = Some team_name"
      "find_available_shift s team_opt True (minutes_of_day start) = Some returned"
      by auto
    from find_available_shift_Some [OF q(3)]
    have "in_shift_window returned (minutes_of_day start) \<and> any_quality_team_works s returned"
      by simp
    moreover from assign_quality_team_balanced_works_shift [OF q(2)]
    obtain shifts where "(team_name, shifts) \<in> set (quality_team_shifts s)" "shift \<in> set shifts"
      by auto
    ultimately show ?thesis
      using True common q(1) unfolding e sl by auto
  qed
qed

theorem placed_start_in_worked_shift_witness:
  "schedule_tasks demo_runtime capacity_demo True = Inr capacity_demo_run
   \<and> (3, placement_entry short_task ''P'' (6122, Some ''M1'', ''1st''))
        \<in> set (task_schedule capacity_demo_run)
   \<and> find_product_line capacity_demo 3 = Some ''P''
   \<and> is_working_day capacity_demo 6122 ''P''
   \<and> in_shift_window ''1st'' (minutes_of_day 6122)
   \<and> ''1st'' \<in> set (dict_get (team_shifts capacity_demo) ''M1'' [])"
proof -
  have mem: "(3, placement_entry short_task ''P'' (6122, Some ''M1'', ''1st''))
        \<in> set (task_schedule capacity_demo_run)"
    by (simp add: capacity_demo_run_def)
  from placed_start_in_worked_shift [OF capacity_demo_schedule mem] capacity_demo_schedule mem
  show ?thesis by (simp add: short_task_def)
qed

section \<open>Termination and iteration bounds\<close>









section \<open>Late parts\<close>

lemma no_finish_equals_start_intoD:
  "no_finish_equals_start_into dc t \<Longrightarrow> \<not> is_finish_equals_start dc d t"
  by (auto simp: no_finish_equals_start_into_def is_finish_equals_start_def list_all_iff list_ex_iff)

lemma apply_dependencies_lower_bound:
  "no_finish_equals_start_into dc t \<Longrightarrow>
   earliest \<le> apply_dependencies dc schedule t deps earliest"
proof (induction deps arbitrary: earliest)
  case Nil
  then show ?case by simp
next
  case (Cons dep deps)
  show ?case
  proof (cases "map_of schedule dep")
    case None
    with Cons show ?thesis by simp
  next
    case (Some dep_sched)
    from Cons.IH [OF Cons.prems, of "max earliest (end_time dep_sched)"]
    have "earliest \<le> apply_dependencies dc schedule t deps (max earliest (end_time dep_sched))"
      by simp
    with Some no_finish_equals_start_intoD [OF Cons.prems, of dep] show ?thesis by simp
  qed
qed

lemma late_part_demo_schedule:
  "schedule_tasks demo_runtime late_part_demo False = Inr late_part_demo_run"
  by code_simp

text \<open>
  Claim C5, as stated, holds for every positive delay.  With a delay of half a day the late
  part may not start before Monday 12:00, and it is placed on Monday at 06:00: the earliest
  start is moved to 06:00 of the day that holds on-dock plus delay, which is earlier than
  that instant.
\<close>

theorem late_part_delay_counterexample:
  "schedule_tasks demo_runtime late_part_demo False = Inr late_part_demo_run
   \<and> 301 \<in> set (late_part_tasks late_part_demo)
   \<and> map_of (on_dock_dates late_part_demo) 301 = Some 10080
   \<and> late_part_delay_days late_part_demo = 1 / 2
   \<and> map_option start_time (map_of (task_schedule late_part_demo_run) 301) = Some 10440
   \<and> (of_int 10440 :: rat) < of_int 10080 + 1 / 2 * 1440"
proof -
  have "301 \<in> set (late_part_tasks late_part_demo)"
    "map_of (on_dock_dates late_part_demo) 301 = Some 10080"
    "late_part_delay_days late_part_demo = 1 / 2"
    "map_option start_time (map_of (task_schedule late_part_demo_run) 301) = Some 10440"
    by (simp_all add: late_part_demo_def late_part_demo_run_def empty_scheduler_def
        placement_entry_def)
  with late_part_demo_schedule show ?thesis by simp
qed

text \<open>
  Claim C5, amended: for every placed late-part task with a recorded on-dock date and no
  incoming \<^verbatim>\<open>Finish = Start\<close> edge, the start is at or after 06:00 of the calendar day
  that holds on-dock plus delay (and at or after the start date); hence the start is at
  least on-dock plus delay whenever the time of day of that instant is not after 06:00, as
  for an on-dock date at midnight and a delay of whole days.
\<close>

theorem late_part_start_after_on_dock_day:
  assumes "schedule_tasks rt s silent_mode = Inr s'"
    and "(t, e) \<in> set (task_schedule s')"
    and "t \<in> set (late_part_tasks s)"
    and "map_of (on_dock_dates s) t = Some on_dock"
    and "no_finish_equals_start_into (build_dynamic_dependencies s) t"
  shows "\<lfloor>(of_int on_dock + late_part_delay_days s * 1440) / 1440\<rfloor> * 1440 + 360 \<le> start_time e
       \<and> start_date \<le> start_time e
       \<and> ((of_int on_dock + late_part_delay_days s * 1440)
            - of_int (\<lfloor>(of_int on_dock + late_part_delay_days s * 1440) / 1440\<rfloor> * 1440) \<le> 360
          \<longrightarrow> of_int on_dock + late_part_delay_days s * 1440 \<le> of_int (start_time e))"
proof -
  let ?dc = "build_dynamic_dependencies s"
  let ?x = "of_int on_dock + late_part_delay_days s * 1440 :: rat"
  let ?floor = "\<lfloor>?x / 1440\<rfloor> * 1440 + 360"
  from schedule_tasks_entry [OF assms(1,2)] obtain earlier where
    "placed_by rt ?dc (s \<lparr> task_schedule := earlier \<rparr>) t e"
    by blast
  then obtain info pl slot where
    slot: "find_slot (s \<lparr> task_schedule := earlier \<rparr>)
             (find_earliest_start rt ?dc (s \<lparr> task_schedule := earlier \<rparr>) t) pl info = Some slot"
    and e: "e = placement_entry info pl slot"
    by (auto simp: placed_by_def)
  obtain start team_opt shift where sl: "slot = (start, team_opt, shift)" by (cases slot) auto
  from find_slot_result [OF slot [unfolded sl]]
  have es: "find_earliest_start rt ?dc (s \<lparr> task_schedule := earlier \<rparr>) t \<le> start" by simp
  have late: "get_earliest_start_for_late_part s t = ?floor"
    using assms(4) by (simp add: get_earliest_start_for_late_part_def)
  have "max start_date ?floor \<le> find_earliest_start rt ?dc (s \<lparr> task_schedule := earlier \<rparr>) t"
    unfolding find_earliest_start_def using assms(3) late
      apply_dependencies_lower_bound [OF assms(5)]
    by simp
  with es have lower: "?floor \<le> start_time e" "start_date \<le> start_time e"
    unfolding e sl by simp_all
  have "?x \<le> of_int (start_time e)" if "?x - of_int (\<lfloor>?x / 1440\<rfloor> * 1440) \<le> 360"
  proof -
    from that have "?x \<le> of_int (\<lfloor>?x / 1440\<rfloor> * 1440 + 360)" by simp
    also have "\<dots> \<le> of_int (start_time e)" using lower(1) by (simp only: of_int_le_iff)
    finally show ?thesis .
  qed
  with lower show ?thesis by blast
qed

lemma late_part_default_schedule:
  "schedule_tasks demo_runtime late_part_default False = Inr late_part_default_run"
  by code_simp

theorem late_part_start_after_on_dock_day_witness:
  "schedule_tasks demo_runtime late_part_default False = Inr late_part_default_run
   \<and> (301, placement_entry (short_task \<lparr> task_type := ''Late Part'' \<rparr>) ''P''
              (11880, Some ''M1'', ''1st'')) \<in> set (task_schedule late_part_default_run)
   \<and> 301 \<in> set (late_part_tasks late_part_default)
   \<and> map_of (on_dock_dates late_part_default) 301 = Some 10080
   \<and> no_finish_equals_start_into (build_dynamic_dependencies late_part_default) 301
   \<and> \<lfloor>(of_int 10080 + late_part_delay_days late_part_default * 1440) / 1440\<rfloor> * 1440 + 360
       = (11880::int)
   \<and> (of_int 10080 + late_part_delay_days late_part_default * 1440
        - of_int (\<lfloor>(of_int 10080 + late_part_delay_days late_part_default * 1440) / 1440\<rfloor> * 1440)
       \<le> (360::rat))
   \<and> (of_int 10080 + late_part_delay_days late_part_default * 1440 \<le> (of_int 11880 :: rat))"
proof -
  have mem: "(301, placement_entry (short_task \<lparr> task_type := ''Late Part'' \<rparr>) ''P''
              (11880, Some ''M1'', ''1st'')) \<in> set (task_schedule late_part_default_run)"
    by (simp add: late_part_default_run_def)
  have lp: "301 \<in> set (late_part_tasks late_part_default)"
    and dock: "map_of (on_dock_dates late_part_default) 301 = Some 10080"
    by (simp_all add: late_part_default_def late_part_demo_def empty_scheduler_def)
  have nofs: "no_finish_equals_start_into (build_dynamic_dependencies late_part_default) 301"
    by code_simp
  have fl: "\<lfloor>(of_int 10080 + late_part_delay_days late_part_default * 1440) / 1440\<rfloor> * 1440 + 360
       = (11880::int)"
    by code_simp
  have tod: "of_int 10080 + late_part_delay_days late_part_default * 1440
        - of_int (\<lfloor>(of_int 10080 + late_part_delay_days late_part_default * 1440) / 1440\<rfloor> * 1440)
       \<le> (360::rat)"
    by code_simp
  from late_part_start_after_on_dock_day [OF late_part_default_schedule mem lp dock nofs] tod
  have "of_int 10080 + late_part_delay_days late_part_default * 1440 \<le> (of_int 11880 :: rat)"
    by simp
  with late_part_default_schedule mem lp dock nofs fl tod
  show ?thesis by simp
qed

section \<open>Dependency edges\<close>










section \<open>Makespan sentinel\<close>

text \<open>Two tasks are loaded and only task 1 is placed.\<close>

definition partial_run :: scheduler where
  "partial_run = empty_scheduler \<lparr> tasks := [(1, demo_task), (2, demo_task)],
     product_tasks := [(''P'', [1])], task_schedule := [(1, demo_placement)] \<rparr>"

text \<open>Two tasks are loaded and none is placed.\<close>

definition nothing_placed :: scheduler where
  "nothing_placed = empty_scheduler \<lparr> tasks := [(1, demo_task), (2, demo_task)] \<rparr>"

text \<open>
  Claim C4, as stated: whenever not every task is placed (also when none is placed while
  tasks exist) the makespan is a sentinel of at least \<open>10^6\<close>.  It fails at both kinds of
  input: with one of two tasks placed the result is 999999, and with none placed it is 0.
\<close>

theorem calculate_makespan_sentinel_counterexample:
  "length (task_schedule partial_run) < length (tasks partial_run)
   \<and> calculate_makespan partial_run = 999999
   \<and> calculate_makespan partial_run < 10 ^ 6
   \<and> length (task_schedule nothing_placed) < length (tasks nothing_placed)
   \<and> calculate_makespan nothing_placed = 0"
  by (simp add: calculate_makespan_def partial_run_def nothing_placed_def empty_scheduler_def)

text \<open>
  Claim C4, amended: when at least one task is placed but fewer than all, the makespan is
  the sentinel 999999; when no task is placed the makespan is 0.
\<close>

theorem calculate_makespan_sentinel:
  "(task_schedule s \<noteq> [] \<and> length (task_schedule s) < length (tasks s)
      \<longrightarrow> calculate_makespan s = 999999)
   \<and> (task_schedule s = [] \<longrightarrow> calculate_makespan s = 0)"
  by (simp add: calculate_makespan_def)

theorem calculate_makespan_sentinel_witness:
  "task_schedule partial_run \<noteq> []
   \<and> length (task_schedule partial_run) < length (tasks partial_run)
   \<and> calculate_makespan partial_run = 999999
   \<and> task_schedule nothing_placed = []
   \<and> calculate_makespan nothing_placed = 0"
  using calculate_makespan_sentinel [of partial_run] calculate_makespan_sentinel [of nothing_placed]
  by (simp add: partial_run_def nothing_placed_def empty_scheduler_def)


section \<open>Quality interposition on baseline edges\<close>

lemma add_baseline_constraint_extends:
  "\<exists>r. add_baseline_constraint s dc rc = dc @ r"
  by (simp add: add_baseline_constraint_def Let_def split: option.split)

lemma foldl_baseline_extends:
  "\<exists>r. foldl (add_baseline_constraint s) dc rows = dc @ r"
proof (induction rows arbitrary: dc)
  case Nil
  then show ?case by simp
next
  case (Cons rc rows)
  obtain r1 where r1: "add_baseline_constraint s dc rc = dc @ r1"
    using add_baseline_constraint_extends by blast
  obtain r2 where "foldl (add_baseline_constraint s) (dc @ r1) rows = (dc @ r1) @ r2"
    using Cons.IH by blast
  with r1 show ?case by simp
qed

lemma foldl_late_part_extends:
  "\<exists>r. foldl add_late_part_constraint dc rows = dc @ r"
proof (induction rows arbitrary: dc)
  case Nil
  then show ?case by simp
next
  case (Cons lp rows)
  obtain r1 where r1: "add_late_part_constraint dc lp = dc @ r1"
    by (simp add: add_late_part_constraint_def)
  obtain r2 where "foldl add_late_part_constraint (dc @ r1) rows = (dc @ r1) @ r2"
    using Cons.IH by blast
  with r1 show ?case by simp
qed

lemma add_rework_constraint_extends:
  "\<exists>r. add_rework_constraint s dc rw = dc @ r"
  by (simp add: add_rework_constraint_def Let_def split: option.split)

lemma foldl_rework_extends:
  "\<exists>r. foldl (add_rework_constraint s) dc rows = dc @ r"
proof (induction rows arbitrary: dc)
  case Nil
  then show ?case by simp
next
  case (Cons rw rows)
  obtain r1 where r1: "add_rework_constraint s dc rw = dc @ r1"
    using add_rework_constraint_extends by blast
  obtain r2 where "foldl (add_rework_constraint s) (dc @ r1) rows = (dc @ r1) @ r2"
    using Cons.IH by blast
  with r1 show ?case by simp
qed

lemma add_remaining_qi_constraint_extends:
  "\<exists>r. add_remaining_qi_constraint dc item = dc @ r"
  by (simp add: add_remaining_qi_constraint_def split: prod.split)

lemma foldl_remaining_qi_extends:
  "\<exists>r. foldl add_remaining_qi_constraint dc items = dc @ r"
proof (induction items arbitrary: dc)
  case Nil
  then show ?case by simp
next
  case (Cons item items)
  obtain r1 where r1: "add_remaining_qi_constraint dc item = dc @ r1"
    using add_remaining_qi_constraint_extends by blast
  obtain r2 where "foldl add_remaining_qi_constraint (dc @ r1) items = (dc @ r1) @ r2"
    using Cons.IH by blast
  with r1 show ?case by simp
qed

lemma build_dynamic_dependencies_extends_baseline:
  "\<exists>r. build_dynamic_dependencies s
         = baseline_constraints s (precedence_constraints s) @ r"
proof -
  let ?b = "baseline_constraints s (precedence_constraints s)"
  obtain r1 where r1: "foldl add_late_part_constraint ?b (late_part_constraints s) = ?b @ r1"
    using foldl_late_part_extends by blast
  obtain r2 where r2:
    "foldl (add_rework_constraint s) (?b @ r1) (rework_constraints s) = (?b @ r1) @ r2"
    using foldl_rework_extends by blast
  obtain r3 where r3:
    "foldl add_remaining_qi_constraint ((?b @ r1) @ r2) (quality_requirements s)
       = ((?b @ r1) @ r2) @ r3"
    using foldl_remaining_qi_extends by blast
  show ?thesis
    unfolding build_dynamic_dependencies_def r1 r2 r3 by simp
qed

text \<open>
  Claim C6: for every baseline precedence row \<open>(a, b, rel)\<close>, the builder emits, after
  the edges of the rows before it: when \<open>a\<close> has a quality task \<open>q\<close>, the edge
  \<open>(a, q, Finish = Start)\<close> unless an edge from \<open>a\<close> to \<open>q\<close> is already present, followed
  by \<open>(q, b, rel)\<close>; when \<open>a\<close> has no quality task, the edge \<open>(a, b, rel)\<close> unchanged.
\<close>

theorem quality_interposition_on_baseline_edges:
  assumes rows: "precedence_constraints s = before @ rc # after"
    and rel: "get_relationship rc = Some rel" "rel \<noteq> []"
  shows "\<exists>rest. build_dynamic_dependencies s =
           baseline_constraints s before
           @ (case map_of (quality_requirements s) (rc_First rc) of
                Some q \<Rightarrow>
                  (if already_present (baseline_constraints s before) (rc_First rc) q
                   then [] else [edge (rc_First rc) q ''Finish = Start''])
                  @ [edge q (rc_Second rc) rel]
              | None \<Rightarrow> [edge (rc_First rc) (rc_Second rc) rel])
           @ rest"
proof -
  let ?pre = "baseline_constraints s before"
  let ?emitted = "case map_of (quality_requirements s) (rc_First rc) of
                Some q \<Rightarrow>
                  (if already_present ?pre (rc_First rc) q
                   then [] else [edge (rc_First rc) q ''Finish = Start''])
                  @ [edge q (rc_Second rc) rel]
              | None \<Rightarrow> [edge (rc_First rc) (rc_Second rc) rel]"
  have one: "add_baseline_constraint s ?pre rc = ?pre @ ?emitted"
    using rel by (simp add: add_baseline_constraint_def Let_def split: option.split)
  obtain r1 where r1:
    "foldl (add_baseline_constraint s) (?pre @ ?emitted) after = (?pre @ ?emitted) @ r1"
    using foldl_baseline_extends by blast
  have base: "baseline_constraints s (precedence_constraints s) = ?pre @ ?emitted @ r1"
    using one r1 by (simp add: rows baseline_constraints_def)
  obtain r2 where
    "build_dynamic_dependencies s = baseline_constraints s (precedence_constraints s) @ r2"
    using build_dynamic_dependencies_extends_baseline by blast
  with base have "build_dynamic_dependencies s = ?pre @ ?emitted @ (r1 @ r2)"
    by simp
  then show ?thesis by blast
qed


definition demo_row :: "task_id \<Rightarrow> task_id \<Rightarrow> raw_constraint" where
  "demo_row a b = \<lparr> rc_First = a, rc_Second = b,
                    rc_Relationship_Type = Some ''Finish <= Start'',
                    rc_Relationship = None \<rparr>"

text \<open>Task 1 has the quality task 101 and precedes tasks 2 and 3; task 4 precedes 5.\<close>

definition interposition_demo :: scheduler where
  "interposition_demo = empty_scheduler \<lparr> quality_requirements := [(1, 101)],
     precedence_constraints := [demo_row 1 2, demo_row 1 3, demo_row 4 5] \<rparr>"

theorem quality_interposition_on_baseline_edges_witness:
  "precedence_constraints interposition_demo = [demo_row 1 2] @ demo_row 1 3 # [demo_row 4 5]
   \<and> get_relationship (demo_row 1 3) = Some ''Finish <= Start''
   \<and> ''Finish <= Start'' \<noteq> []
   \<and> (\<exists>rest. build_dynamic_dependencies interposition_demo =
          [edge 1 101 ''Finish = Start'', edge 101 2 ''Finish <= Start'']
          @ [edge 101 3 ''Finish <= Start''] @ rest)"
  using quality_interposition_on_baseline_edges
    [of interposition_demo "[demo_row 1 2]" "demo_row 1 3" "[demo_row 4 5]" "''Finish <= Start''"]
  by (simp add: interposition_demo_def empty_scheduler_def demo_row_def get_relationship_def
      baseline_constraints_def add_baseline_constraint_def already_present_def edge_def)

section \<open>Tie-breaking of the quality team selector\<close>









section \<open>Team utilization\<close>









section \<open>Scenario runs and the capacity maps\<close>

lemma map_of_dict_set: "map_of (dict_set d k v) = (map_of d) (k \<mapsto> v)"
  by (induction d) (auto simp: fun_eq_iff)

lemma map_of_restore_capacities:
  "map_of (restore_capacities caps originals) = map_of caps ++ map_of (rev originals)"
  unfolding restore_capacities_def
proof (induction originals arbitrary: caps)
  case Nil
  then show ?case by simp
next
  case (Cons x xs)
  obtain k v where x: "x = (k, v)" by (cases x) auto
  have "map_of (foldl (\<lambda>d (team_name, capacity). dict_set d team_name capacity)
                  (dict_set caps k v) xs)
          = map_of (dict_set caps k v) ++ map_of (rev xs)"
    by (rule Cons.IH)
  also have "\<dots> = map_of caps ++ map_of (rev (x # xs))"
    by (simp add: x map_of_dict_set fun_eq_iff map_add_def split: option.split)
  finally show ?case by (simp add: x)
qed

lemma restore_capacities_original:
  assumes "distinct (map fst originals)" and "(team_name, c) \<in> set originals"
  shows "map_of (restore_capacities caps originals) team_name = Some c"
proof -
  have "distinct (map fst (rev originals))" using assms(1) by (simp add: rev_map [symmetric])
  moreover have "(team_name, c) \<in> set (rev originals)" using assms(2) by simp
  ultimately have "map_of (rev originals) team_name = Some c" by (rule map_of_is_SomeI)
  then show ?thesis by (simp add: map_of_restore_capacities)
qed

lemma schedule_tasks_frame:
  "schedule_tasks rt s silent_mode = Inr s' \<Longrightarrow> s' = s \<lparr> task_schedule := task_schedule s' \<rparr>"
  using schedule_tasks_trace by blast

lemma generate_originals:
  assumes "generate_global_priority_list rt s silent_mode = Inr s'"
  shows "original_team_capacity s' = original_team_capacity s"
    and "original_quality_capacity s' = original_quality_capacity s"
    and "team_capacity s' = team_capacity s"
    and "quality_team_capacity s' = quality_team_capacity s"
proof -
  from assms have "s' = s \<lparr> task_schedule := task_schedule s' \<rparr>"
    unfolding generate_global_priority_list_def by (rule schedule_tasks_frame)
  then have "original_team_capacity s' = original_team_capacity (s \<lparr> task_schedule := task_schedule s' \<rparr>)"
    "original_quality_capacity s' = original_quality_capacity (s \<lparr> task_schedule := task_schedule s' \<rparr>)"
    "team_capacity s' = team_capacity (s \<lparr> task_schedule := task_schedule s' \<rparr>)"
    "quality_team_capacity s' = quality_team_capacity (s \<lparr> task_schedule := task_schedule s' \<rparr>)"
    by simp_all
  then show "original_team_capacity s' = original_team_capacity s"
    and "original_quality_capacity s' = original_quality_capacity s"
    and "team_capacity s' = team_capacity s"
    and "quality_team_capacity s' = quality_team_capacity s"
    by simp_all
qed

lemma mechanic_search_originals:
  "mechanic_search rt s max_quality lo hi best_makespan best_mech = (s', bm, b)
   \<Longrightarrow> original_team_capacity s' = original_team_capacity s
       \<and> original_quality_capacity s' = original_quality_capacity s"
proof (induction rt s max_quality lo hi best_makespan best_mech rule: mechanic_search.induct)
  case (1 rt s max_quality lo hi best_makespan best_mech)
  show ?case
  proof (cases "lo \<le> hi")
    case False
    with "1.prems" show ?thesis by (subst (asm) mechanic_search.simps) simp
  next
    case True
    let ?mid = "(lo + hi) div 2"
    let ?s1 = "s \<lparr> team_capacity := set_all_capacities (team_capacity s) ?mid,
                    quality_team_capacity := set_all_capacities (quality_team_capacity s) max_quality \<rparr>"
    show ?thesis
    proof (cases "generate_global_priority_list rt ?s1 True")
      case (Inl e)
      with True "1.prems" have
        "mechanic_search rt ?s1 max_quality (?mid + 1) hi best_makespan best_mech = (s', bm, b)"
        by (subst (asm) mechanic_search.simps) (simp add: Let_def)
      from "1.IH"(1) [OF True refl refl Inl this] show ?thesis by simp
    next
      case (Inr s2)
      note o = generate_originals(1,2) [OF Inr]
      show ?thesis
      proof (cases "length (task_schedule s2) < length (tasks s2)")
        case short: True
        with True Inr "1.prems" have
          "mechanic_search rt s2 max_quality (?mid + 1) hi best_makespan best_mech = (s', bm, b)"
          by (subst (asm) mechanic_search.simps) (simp add: Let_def)
        from "1.IH"(2) [OF True refl refl Inr short this] o show ?thesis by simp
      next
        case full: False
        show ?thesis
        proof (cases "case best_makespan of None \<Rightarrow> True | Some x \<Rightarrow> calculate_makespan s2 < x")
          case better: True
          with True Inr full "1.prems" have
            "mechanic_search rt s2 max_quality lo (?mid - 1) (Some (calculate_makespan s2)) ?mid
               = (s', bm, b)"
            by (subst (asm) mechanic_search.simps) (simp add: Let_def)
          from "1.IH"(3) [OF True refl refl Inr full refl better this] o show ?thesis by simp
        next
          case worse: False
          with True Inr full "1.prems" have
            "mechanic_search rt s2 max_quality (?mid + 1) hi best_makespan best_mech = (s', bm, b)"
            by (subst (asm) mechanic_search.simps) (simp add: Let_def)
          from "1.IH"(4) [OF True refl refl Inr full refl worse this] o show ?thesis by simp
        qed
      qed
    qed
  qed
qed

lemma quality_search_originals:
  "quality_search rt s lo hi best_makespan best_qual = (s', bm, b)
   \<Longrightarrow> original_team_capacity s' = original_team_capacity s
       \<and> original_quality_capacity s' = original_quality_capacity s"
proof (induction rt s lo hi best_makespan best_qual rule: quality_search.induct)
  case (1 rt s lo hi best_makespan best_qual)
  show ?case
  proof (cases "lo \<le> hi")
    case False
    with "1.prems" show ?thesis by (subst (asm) quality_search.simps) simp
  next
    case True
    let ?mid = "(lo + hi) div 2"
    let ?s1 = "s \<lparr> quality_team_capacity := set_all_capacities (quality_team_capacity s) ?mid \<rparr>"
    show ?thesis
    proof (cases "generate_global_priority_list rt ?s1 True")
      case (Inl e)
      with True "1.prems" have
        "quality_search rt ?s1 (?mid + 1) hi best_makespan best_qual = (s', bm, b)"
        by (subst (asm) quality_search.simps) (simp add: Let_def)
      from "1.IH"(1) [OF True refl refl Inl this] show ?thesis by simp
    next
      case (Inr s2)
      note o = generate_originals(1,2) [OF Inr]
      show ?thesis
      proof (cases "length (task_schedule s2) < length (tasks s2)")
        case short: True
        with True Inr "1.prems" have
          "quality_search rt s2 (?mid + 1) hi best_makespan best_qual = (s', bm, b)"
          by (subst (asm) quality_search.simps) (simp add: Let_def)
        from "1.IH"(2) [OF True refl refl Inr short this] o show ?thesis by simp
      next
        case full: False
        show ?thesis
        proof (cases "case best_makespan of None \<Rightarrow> True | Some x \<Rightarrow> calculate_makespan s2 \<le> x")
          case better: True
          with True Inr full "1.prems" have
            "quality_search rt s2 lo (?mid - 1) (Some (calculate_makespan s2)) ?mid = (s', bm, b)"
            by (subst (asm) quality_search.simps) (simp add: Let_def)
          from "1.IH"(3) [OF True refl refl Inr full refl better this] o show ?thesis by simp
        next
          case worse: False
          with True Inr full "1.prems" have
            "quality_search rt s2 (?mid + 1) hi best_makespan best_qual = (s', bm, b)"
            by (subst (asm) quality_search.simps) (simp add: Let_def)
          from "1.IH"(4) [OF True refl refl Inr full refl worse this] o show ?thesis by simp
        qed
      qed
    qed
  qed
qed

text \<open>
  Claim C7, as stated, says that every exit path of a scenario run restores the capacity
  maps, exits by an exception included.  In \<open>dangling_demo\<close> a precedence row names a task
  that was never loaded.  Scenario 1 with 5 mechanics and 3 inspectors per team is left by
  the \<^verbatim>\<open>ValueError\<close> of the DAG validation, and the maps keep 5 and 3 where they held 2
  and 1.  Scenario 2 runs silently, so the validation is skipped and every run is left by a
  \<^verbatim>\<open>KeyError\<close> once task 9 is reached; the two searches catch it, the final run at line
  1967 does not, and the maps keep the upper bounds 50 and 20.
\<close>

theorem capacities_not_restored_counterexample:
  "team_capacity dangling_demo = [(''M1'', 2)]
   \<and> quality_team_capacity dangling_demo = [(''Q1'', 1)]
   \<and> scenario_1_custom_headcount demo_runtime dangling_demo (Some 5) (Some 3) None None
       = (Inl ValueError, [(''M1'', 5)], [(''Q1'', 3)])
   \<and> scenario_2_minimize_makespan demo_runtime dangling_demo 1 50 1 20
       = (Inl KeyError, [(''M1'', 50)], [(''Q1'', 20)])"
  by code_simp

text \<open>
  Claim C7, amended: the capacity maps are restored on every normal return of a scenario
  run.  Scenario 1 copies the two maps on entry and puts the copies back before it returns
  its result; when the run raises, the maps stay as the scenario set them.  Scenarios 2 and
  3 write back the capacities recorded at load time: after a normal return (for scenario 3
  also the return without a feasible configuration) every team recorded there has its
  recorded capacity.
\<close>

theorem capacities_restored_on_normal_return:
  "(\<forall>r tc qc. scenario_1_custom_headcount rt s mechanic_headcount quality_headcount
                  custom_team_capacity custom_quality_capacity = (Inr r, tc, qc)
       \<longrightarrow> tc = team_capacity s \<and> qc = quality_team_capacity s)
   \<and> (\<forall>e tc qc. scenario_1_custom_headcount rt s mechanic_headcount quality_headcount
                  custom_team_capacity custom_quality_capacity = (Inl e, tc, qc)
       \<longrightarrow> tc = apply_headcount (team_capacity s) custom_team_capacity mechanic_headcount
         \<and> qc = apply_headcount (quality_team_capacity s) custom_quality_capacity
                  quality_headcount)
   \<and> (distinct (map fst (original_team_capacity s))
        \<and> distinct (map fst (original_quality_capacity s))
      \<longrightarrow> (\<forall>r tc qc. scenario_2_minimize_makespan rt s min_mechanics max_mechanics
                          min_quality max_quality = (Inr r, tc, qc)
             \<longrightarrow> (\<forall>(team_name, c) \<in> set (original_team_capacity s). map_of tc team_name = Some c)
               \<and> (\<forall>(team_name, c) \<in> set (original_quality_capacity s).
                     map_of qc team_name = Some c))
        \<and> (\<forall>r tc qc. scenario_3_multidimensional_optimization phases s = (Inr r, tc, qc)
             \<longrightarrow> (\<forall>(team_name, c) \<in> set (original_team_capacity s). map_of tc team_name = Some c)
               \<and> (\<forall>(team_name, c) \<in> set (original_quality_capacity s).
                     map_of qc team_name = Some c)))"
proof (intro conjI allI impI)
  fix r tc qc
  assume "scenario_1_custom_headcount rt s mechanic_headcount quality_headcount
                  custom_team_capacity custom_quality_capacity = (Inr r, tc, qc)"
  then show "tc = team_capacity s" "qc = quality_team_capacity s"
    by (auto simp: scenario_1_custom_headcount_def Let_def split: sum.splits)
next
  fix e tc qc
  assume "scenario_1_custom_headcount rt s mechanic_headcount quality_headcount
                  custom_team_capacity custom_quality_capacity = (Inl e, tc, qc)"
  then show "tc = apply_headcount (team_capacity s) custom_team_capacity mechanic_headcount"
    "qc = apply_headcount (quality_team_capacity s) custom_quality_capacity quality_headcount"
    by (auto simp: scenario_1_custom_headcount_def Let_def split: sum.splits)
next
  fix r tc qc
  assume d: "distinct (map fst (original_team_capacity s))
        \<and> distinct (map fst (original_quality_capacity s))"
    and run: "scenario_2_minimize_makespan rt s min_mechanics max_mechanics
                          min_quality max_quality = (Inr r, tc, qc)"
  obtain s1 bm1 best_mech where m:
    "mechanic_search rt s max_quality min_mechanics max_mechanics None max_mechanics
       = (s1, bm1, best_mech)"
    by (metis prod_cases3)
  let ?s2 = "s1 \<lparr> team_capacity := set_all_capacities (team_capacity s1) best_mech \<rparr>"
  obtain s3 bm3 best_qual where q:
    "quality_search rt ?s2 min_quality max_quality bm1 max_quality = (s3, bm3, best_qual)"
    by (metis prod_cases3)
  let ?s4 = "s3 \<lparr> team_capacity := set_all_capacities (team_capacity s3) best_mech,
                  quality_team_capacity := set_all_capacities (quality_team_capacity s3) best_qual,
                  task_schedule := [] \<rparr>"
  from run m q obtain s5 where g: "generate_global_priority_list rt ?s4 True = Inr s5"
    and tc: "tc = restore_capacities (team_capacity s5) (original_team_capacity s5)"
    and qc: "qc = restore_capacities (quality_team_capacity s5) (original_quality_capacity s5)"
    by (auto simp: scenario_2_minimize_makespan_def Let_def split: sum.splits)
  from mechanic_search_originals [OF m] quality_search_originals [OF q] generate_originals(1,2) [OF g]
  have o: "original_team_capacity s5 = original_team_capacity s"
    "original_quality_capacity s5 = original_quality_capacity s"
    by simp_all
  show "\<forall>(team_name, c) \<in> set (original_team_capacity s). map_of tc team_name = Some c"
    unfolding tc o using d restore_capacities_original by fast
  show "\<forall>(team_name, c) \<in> set (original_quality_capacity s). map_of qc team_name = Some c"
    unfolding qc o using d restore_capacities_original by fast
next
  fix r tc qc
  assume d: "distinct (map fst (original_team_capacity s))
        \<and> distinct (map fst (original_quality_capacity s))"
    and run: "scenario_3_multidimensional_optimization phases s = (Inr r, tc, qc)"
  obtain res s1 where p: "phases s = (res, s1)"
    by (cases "phases s") auto
  from run p
  have tc: "tc = restore_capacities (team_capacity s1) (original_team_capacity s)"
    and qc: "qc = restore_capacities (quality_team_capacity s1) (original_quality_capacity s)"
    by (auto simp: scenario_3_multidimensional_optimization_def Let_def
        split: sum.splits option.splits)
  show "\<forall>(team_name, c) \<in> set (original_team_capacity s). map_of tc team_name = Some c"
    unfolding tc using d restore_capacities_original by fast
  show "\<forall>(team_name, c) \<in> set (original_quality_capacity s). map_of qc team_name = Some c"
    unfolding qc using d restore_capacities_original by fast
qed

theorem capacities_restored_on_normal_return_witness:
  "scenario_1_custom_headcount demo_runtime scenario_demo (Some 3) (Some 2) None None
     = (Inr 1, team_capacity scenario_demo, quality_team_capacity scenario_demo)
   \<and> distinct (map fst (original_team_capacity scenario_demo))
   \<and> distinct (map fst (original_quality_capacity scenario_demo))
   \<and> (''M1'', 2) \<in> set (original_team_capacity scenario_demo)
   \<and> (''Q1'', 1) \<in> set (original_quality_capacity scenario_demo)
   \<and> fst (scenario_2_minimize_makespan demo_runtime scenario_demo 1 4 1 2) = Inr (2, 1, 1)
   \<and> map_of (fst (snd (scenario_2_minimize_makespan demo_runtime scenario_demo 1 4 1 2))) ''M1''
       = Some 2
   \<and> map_of (snd (snd (scenario_2_minimize_makespan demo_runtime scenario_demo 1 4 1 2))) ''Q1''
       = Some 1"
proof -
  have r1: "scenario_1_custom_headcount demo_runtime scenario_demo (Some 3) (Some 2) None None
              = (Inr 1, [(''M1'', 2)], [(''Q1'', 1)])"
    by code_simp
  have r2: "scenario_2_minimize_makespan demo_runtime scenario_demo 1 4 1 2
              = (Inr (2, 1, 1), [(''M1'', 2)], [(''Q1'', 1)])"
    by code_simp
  have o: "team_capacity scenario_demo = [(''M1'', 2)]"
    "quality_team_capacity scenario_demo = [(''Q1'', 1)]"
    "original_team_capacity scenario_demo = [(''M1'', 2)]"
    "original_quality_capacity scenario_demo = [(''Q1'', 1)]"
    by (simp_all add: scenario_demo_def capacity_demo_def empty_scheduler_def)
  from capacities_restored_on_normal_return
         [where rt = demo_runtime and s = scenario_demo and mechanic_headcount = "Some 3"
            and quality_headcount = "Some 2" and custom_team_capacity = None
            and custom_quality_capacity = None and min_mechanics = 1 and max_mechanics = 4
            and min_quality = 1 and max_quality = 2]
       r1 r2 o
  show ?thesis by simp
qed

end
